theory Spec2Isabelle
  imports Main "HOL-Library.Word" "HOL-Library.Monad_Syntax"
begin

section \<open>Strings and numbers of the host language\<close>

text \<open>
  A JavaScript string is a sequence of 16-bit code units. \<open>js\<close> embeds an ASCII
  literal of the source.
\<close>

type_synonym jsstring = "16 word list"

definition js :: "string \<Rightarrow> jsstring" where
  "js s = map (\<lambda>c. of_nat (of_char c)) s"

text \<open>
  \<open>String.prototype.trim\<close> removes the white space and line terminator code units
  from both ends: TAB, LF, VT, FF, CR, SP, NBSP, U+1680, U+2000 to U+200A, U+2028,
  U+2029, U+202F, U+205F, U+3000 and U+FEFF.
\<close>

definition isWhiteSpace :: "16 word \<Rightarrow> bool" where
  "isWhiteSpace c =
     (c \<in> set [0x9, 0xA, 0xB, 0xC, 0xD, 0x20, 0xA0, 0x1680, 0x2028, 0x2029, 0x202F, 0x205F,
                0x3000, 0xFEFF]
      \<or> (0x2000 \<le> c \<and> c \<le> 0x200A))"

definition trim :: "jsstring \<Rightarrow> jsstring" where
  "trim s = rev (dropWhile isWhiteSpace (rev (dropWhile isWhiteSpace s)))"

text \<open>
  \<open>Number.prototype.toString\<close> on an integer of magnitude below \<open>10\<^sup>2\<^sup>1\<close> is its
  decimal numeral, with a minus sign when negative. The integers the component prints
  are clock readings and list lengths, all far below that bound.
\<close>

definition digit :: "nat \<Rightarrow> 16 word" where
  "digit d = of_nat (48 + d)"

fun digits :: "nat \<Rightarrow> jsstring" where
  "digits n = (if n < 10 then [digit n] else digits (n div 10) @ [digit (n mod 10)])"

declare digits.simps [simp del]

definition Number_toString :: "int \<Rightarrow> jsstring" where
  "Number_toString i = (if i < 0 then 0x2D # digits (nat (- i)) else digits (nat i))"

section \<open>Dates\<close>

text \<open>
  A \<open>Date\<close> object holds a time value: an integral number of milliseconds since the
  epoch, of magnitude at most \<open>8.64 \<times> 10\<^sup>1\<^sup>5\<close>, or NaN (an invalid date), which is
  \<open>None\<close> here. The functions below are those of ECMA-262, section "Date Objects";
  \<open>YearFromDay\<close> is its \<open>YearFromTime\<close> on day numbers, found by a search from an
  estimate.
\<close>

type_synonym Date = "int option"

definition msPerDay :: int where
  "msPerDay = 86400000"

definition TimeClip :: "int \<Rightarrow> Date" where
  "TimeClip t = (if \<bar>t\<bar> > 8640000000000000 then None else Some t)"

text \<open>A valid date: not NaN, and within the range that \<open>TimeClip\<close> leaves.\<close>

definition valid_Date :: "Date \<Rightarrow> bool" where
  "valid_Date d = (case d of None \<Rightarrow> False | Some t \<Rightarrow> \<bar>t\<bar> \<le> 8640000000000000)"

definition Day :: "int \<Rightarrow> int" where
  "Day t = t div msPerDay"

definition TimeWithinDay :: "int \<Rightarrow> int" where
  "TimeWithinDay t = t mod msPerDay"

definition DaysInYear :: "int \<Rightarrow> int" where
  "DaysInYear y =
     (if y mod 4 \<noteq> 0 then 365
      else if y mod 100 \<noteq> 0 then 366
      else if y mod 400 \<noteq> 0 then 365
      else 366)"

definition InLeapYear :: "int \<Rightarrow> bool" where
  "InLeapYear y = (DaysInYear y = 366)"

definition DayFromYear :: "int \<Rightarrow> int" where
  "DayFromYear y =
     365 * (y - 1970) + (y - 1969) div 4 - (y - 1901) div 100 + (y - 1601) div 400"

function year_down :: "int \<Rightarrow> int \<Rightarrow> int" where
  "year_down d y = (if d < DayFromYear y then year_down d (y - 1) else y)"
  by pat_completeness auto
termination
proof (relation "measure (\<lambda>(d, y). nat (DayFromYear y - d))")
  show "wf (measure (\<lambda>(d, y). nat (DayFromYear y - d)))" by simp
next
  fix d y :: int
  assume less: "d < DayFromYear y"
  have "(y - 1 - 1969) div 4 \<le> (y - 1969) div 4"
    by (rule zdiv_mono1) simp_all
  moreover have "(y - 1 - 1601) div 400 \<le> (y - 1601) div 400"
    by (rule zdiv_mono1) simp_all
  moreover have "(y - 1901) div 100 \<le> (y - 1 - 1901 + 100) div 100"
    by (rule zdiv_mono1) simp_all
  then have "(y - 1901) div 100 \<le> (y - 1 - 1901) div 100 + 1"
    by simp
  ultimately have "DayFromYear (y - 1) < DayFromYear y"
    by (simp add: DayFromYear_def)
  with less show "((d, y - 1), (d, y)) \<in> measure (\<lambda>(d, y). nat (DayFromYear y - d))"
    by simp
qed

declare year_down.simps [simp del]

function year_up :: "int \<Rightarrow> int \<Rightarrow> int" where
  "year_up d y = (if DayFromYear (y + 1) \<le> d then year_up d (y + 1) else y)"
  by pat_completeness auto
termination
proof (relation "measure (\<lambda>(d, y). nat (d + 1 - DayFromYear (y + 1)))")
  show "wf (measure (\<lambda>(d, y). nat (d + 1 - DayFromYear (y + 1))))" by simp
next
  fix d y :: int
  assume le: "DayFromYear (y + 1) \<le> d"
  have "(y + 1 - 1969) div 4 \<le> (y + 1 + 1 - 1969) div 4"
    by (rule zdiv_mono1) simp_all
  moreover have "(y + 1 - 1601) div 400 \<le> (y + 1 + 1 - 1601) div 400"
    by (rule zdiv_mono1) simp_all
  moreover have "(y + 1 + 1 - 1901) div 100 \<le> (y + 1 - 1901 + 100) div 100"
    by (rule zdiv_mono1) simp_all
  then have "(y + 1 + 1 - 1901) div 100 \<le> (y + 1 - 1901) div 100 + 1"
    by simp
  ultimately have "DayFromYear (y + 1) < DayFromYear (y + 1 + 1)"
    by (simp add: DayFromYear_def)
  with le show "((d, y + 1), (d, y)) \<in> measure (\<lambda>(d, y). nat (d + 1 - DayFromYear (y + 1)))"
    by simp
qed

declare year_up.simps [simp del]

definition YearFromDay :: "int \<Rightarrow> int" where
  "YearFromDay d = year_up d (year_down d (1970 + d div 365))"

text \<open>
  The day number within the year at which month \<open>m\<close> (0 for January) begins; at
  \<open>m = 12\<close> it is the length of the year.
\<close>

definition month_start :: "bool \<Rightarrow> nat \<Rightarrow> int" where
  "month_start leap m =
     [0, 31, 59, 90, 120, 151, 181, 212, 243, 273, 304, 334, 365] ! m
     + (if leap \<and> 2 \<le> m then 1 else 0)"

definition MonthFromDayWithinYear :: "bool \<Rightarrow> int \<Rightarrow> nat" where
  "MonthFromDayWithinYear leap n =
     (if n < month_start leap 1 then 0
      else if n < month_start leap 2 then 1
      else if n < month_start leap 3 then 2
      else if n < month_start leap 4 then 3
      else if n < month_start leap 5 then 4
      else if n < month_start leap 6 then 5
      else if n < month_start leap 7 then 6
      else if n < month_start leap 8 then 7
      else if n < month_start leap 9 then 8
      else if n < month_start leap 10 then 9
      else if n < month_start leap 11 then 10
      else 11)"

text \<open>
  \<open>Date.prototype.toISOString\<close> of a valid time value:
  \<open>YYYY-MM-DDTHH:mm:ss.sssZ\<close>, with the year as four digits from 0 to 9999 and as
  a sign and six digits otherwise. \<open>pad k n\<close> is \<open>n\<close> in exactly \<open>k\<close> decimal digits.
\<close>

fun pad :: "nat \<Rightarrow> nat \<Rightarrow> jsstring" where
  "pad 0 n = []"
| "pad (Suc k) n = pad k (n div 10) @ [digit (n mod 10)]"

definition year_string :: "int \<Rightarrow> jsstring" where
  "year_string y =
     (if 0 \<le> y \<and> y \<le> 9999 then pad 4 (nat y)
      else (if y < 0 then 0x2D else 0x2B) # pad 6 (nat \<bar>y\<bar>))"

definition toISOString :: "int \<Rightarrow> jsstring" where
  "toISOString t =
     (let d = Day t;
          w = TimeWithinDay t;
          y = YearFromDay d;
          n = d - DayFromYear y;
          m = MonthFromDayWithinYear (InLeapYear y) n;
          date = n - month_start (InLeapYear y) m + 1
      in year_string y @ js ''-'' @ pad 2 (m + 1) @ js ''-'' @ pad 2 (nat date)
         @ js ''T'' @ pad 2 (nat (w div 3600000)) @ js '':''
         @ pad 2 (nat (w div 60000 mod 60)) @ js '':''
         @ pad 2 (nat (w div 1000 mod 60)) @ js ''.''
         @ pad 3 (nat (w mod 1000)) @ js ''Z'')"

text \<open>
  \<open>Date.parse\<close>. ECMA-262 fixes the result on the date-time string format and leaves
  every other string to the implementation. \<open>parse_ISO\<close> decides the complete UTC form
  \<open>YYYY-MM-DDTHH:mm:ss.sssZ\<close> (year of four digits, or a sign and six digits, the year
  \<open>-000000\<close> excluded) with every field in its range, and answers \<open>None\<close> on any other
  string, which \<open>Date_parse\<close> then hands to the parameter \<open>impl\<close>: the shorter forms of
  the format, local times, and whatever else the host accepts.
\<close>

definition digit_value :: "16 word \<Rightarrow> nat option" where
  "digit_value c = (if 0x30 \<le> c \<and> c \<le> 0x39 then Some (unat c - 48) else None)"

fun read_digits :: "nat \<Rightarrow> nat \<Rightarrow> jsstring \<Rightarrow> (nat \<times> jsstring) option" where
  "read_digits 0 acc s = Some (acc, s)"
| "read_digits (Suc k) acc [] = None"
| "read_digits (Suc k) acc (c # s) =
     (case digit_value c of
        None \<Rightarrow> None
      | Some v \<Rightarrow> read_digits k (10 * acc + v) s)"

fun expect :: "16 word \<Rightarrow> jsstring \<Rightarrow> jsstring option" where
  "expect c [] = None"
| "expect c (c' # s) = (if c' = c then Some s else None)"

definition read_year :: "jsstring \<Rightarrow> (int \<times> jsstring) option" where
  "read_year s =
     (case s of
        [] \<Rightarrow> None
      | c # r \<Rightarrow>
          if c = 0x2B then
            (case read_digits 6 0 r of None \<Rightarrow> None | Some (n, r') \<Rightarrow> Some (int n, r'))
          else if c = 0x2D then
            (case read_digits 6 0 r of
               None \<Rightarrow> None
             | Some (n, r') \<Rightarrow> if n = 0 then None else Some (- int n, r'))
          else
            (case read_digits 4 0 s of None \<Rightarrow> None | Some (n, r') \<Rightarrow> Some (int n, r')))"

definition MakeDate :: "int \<Rightarrow> nat \<Rightarrow> nat \<Rightarrow> nat \<Rightarrow> nat \<Rightarrow> nat \<Rightarrow> nat \<Rightarrow> int" where
  "MakeDate y mo dd h mi sec ms =
     (DayFromYear y + month_start (InLeapYear y) (mo - 1) + int dd - 1) * msPerDay
     + int h * 3600000 + int mi * 60000 + int sec * 1000 + int ms"

definition parse_ISO :: "jsstring \<Rightarrow> Date option" where
  "parse_ISO s =
     do {
       (y, s1) \<leftarrow> read_year s;
       s2 \<leftarrow> expect 0x2D s1;
       (mo, s3) \<leftarrow> read_digits 2 0 s2;
       s4 \<leftarrow> expect 0x2D s3;
       (dd, s5) \<leftarrow> read_digits 2 0 s4;
       s6 \<leftarrow> expect 0x54 s5;
       (h, s7) \<leftarrow> read_digits 2 0 s6;
       s8 \<leftarrow> expect 0x3A s7;
       (mi, s9) \<leftarrow> read_digits 2 0 s8;
       s10 \<leftarrow> expect 0x3A s9;
       (sec, s11) \<leftarrow> read_digits 2 0 s10;
       s12 \<leftarrow> expect 0x2E s11;
       (ms, s13) \<leftarrow> read_digits 3 0 s12;
       s14 \<leftarrow> expect 0x5A s13;
       if s14 = [] \<and> 1 \<le> mo \<and> mo \<le> 12 \<and> 1 \<le> dd
          \<and> int dd \<le> month_start (InLeapYear y) mo - month_start (InLeapYear y) (mo - 1)
          \<and> h \<le> 23 \<and> mi \<le> 59 \<and> sec \<le> 59
       then Some (TimeClip (MakeDate y mo dd h mi sec ms))
       else None
     }"

section \<open>JSON values and the storage\<close>

text \<open>
  A JSON text is represented by the value \<open>JSON.parse\<close> makes of it. Numbers are
  IEEE doubles: \<open>Dyadic m e\<close> is the finite double \<open>m \<times> 2\<^sup>e\<close>; a numeral beyond the
  range of the doubles parses to an infinity. The list of an object holds its
  properties in property order, one entry per key.
\<close>

datatype jsnumber = PosInfinity | NegInfinity | Dyadic int int

datatype json =
    JNull
  | JBool bool
  | JNum jsnumber
  | JStr jsstring
  | JArr "json list"
  | JObj "(jsstring \<times> json) list"

text \<open>
  The string stored under a key is the empty string, some other text that is not JSON,
  or the JSON text of a value. \<open>JSON.parse\<close> throws a \<open>SyntaxError\<close> on the first
  two; \<open>JSON.stringify\<close> of a value writes a text that parses back to the JSON image
  of that value.
\<close>

datatype item_text = Empty_text | Unparsable_text | Json_text json

datatype js_error = SyntaxError | TypeError | QuotaExceededError

definition JSON_parse :: "item_text \<Rightarrow> js_error + json" where
  "JSON_parse txt =
     (case txt of
        Empty_text \<Rightarrow> Inl SyntaxError
      | Unparsable_text \<Rightarrow> Inl SyntaxError
      | Json_text v \<Rightarrow> Inr v)"

text \<open>
  \<open>localStorage\<close>, restricted to the one key the component uses, \<open>'dailyTargets'\<close>.
  \<open>getItem\<close> returns the stored string or \<open>null\<close>; \<open>setItem\<close> throws when the
  storage refuses the write (quota exceeded, storage disabled), which the flag
  \<open>quota_exceeded\<close> stands for.
\<close>

record Storage =
  dailyTargets :: "item_text option"
  quota_exceeded :: bool

definition getItem :: "Storage \<Rightarrow> item_text option" where
  "getItem sto = dailyTargets sto"

definition setItem :: "Storage \<Rightarrow> item_text \<Rightarrow> js_error + Storage" where
  "setItem sto txt =
     (if quota_exceeded sto then Inl QuotaExceededError
      else Inr (sto\<lparr>dailyTargets := Some txt\<rparr>))"

section \<open>The target tracker component\<close>

record Target =
  id' :: jsstring
  text' :: jsstring
  completed :: bool
  createdAt :: Date

datatype variant = destructive

record toast =
  title :: jsstring
  description :: jsstring
  variant :: "variant option"

text \<open>
  The state of \<open>TargetTracker\<close>: the React state \<open>targets\<close> and \<open>newTarget\<close>, and
  what the component acts on: the toasts issued so far (oldest first), the lines
  written by \<open>console.error\<close>, and the storage. \<open>persist_calls\<close> is a ghost counter of
  the runs of the saving effect; it does not exist in the source and no branch reads
  it.
\<close>

record TargetTracker =
  targets :: "Target list"
  newTarget :: jsstring
  toasts :: "toast list"
  console :: "jsstring list"
  localStorage :: Storage
  persist_calls :: nat

text \<open>
  The state of the first render, on a given storage, before any effect has run:
  \<open>useState([])\<close>, \<open>useState('')\<close>, no toast issued.
\<close>

definition TargetTracker_init :: "Storage \<Rightarrow> TargetTracker" where
  "TargetTracker_init sto =
     \<lparr>targets = [], newTarget = [], toasts = [], console = [], localStorage = sto,
      persist_calls = 0\<rparr>"

definition emit :: "toast \<Rightarrow> TargetTracker \<Rightarrow> TargetTracker" where
  "emit t st = st\<lparr>toasts := toasts st @ [t]\<rparr>"

text \<open>
  \<open>JSON.stringify(targets)\<close>. A \<open>Date\<close> is written through its \<open>toJSON\<close>: \<open>null\<close>
  for an invalid date, the ISO string otherwise.
\<close>

definition Date_toJSON :: "Date \<Rightarrow> json" where
  "Date_toJSON d = (case d of None \<Rightarrow> JNull | Some t \<Rightarrow> JStr (toISOString t))"

definition Target_toJSON :: "Target \<Rightarrow> json" where
  "Target_toJSON t =
     JObj [(js ''id'', JStr (id' t)),
           (js ''text'', JStr (text' t)),
           (js ''completed'', JBool (completed t)),
           (js ''createdAt'', Date_toJSON (createdAt t))]"

definition JSON_stringify :: "Target list \<Rightarrow> item_text" where
  "JSON_stringify ts = Json_text (JArr (map Target_toJSON ts))"

text \<open>
  The saving effect, which React runs after every render in which \<open>targets\<close> is a new
  array (its other dependency, the function \<open>toast\<close>, is taken to be the same at every
  render):
  \<^verbatim>\<open>
    try { localStorage.setItem('dailyTargets', JSON.stringify(targets)); }
    catch (error) {
      console.error('Error saving targets:', error);
      toast({ title: "Error", description: "Could not save your targets.",
              variant: "destructive" });
    }
  \<close>
\<close>

definition save_effect :: "TargetTracker \<Rightarrow> TargetTracker" where
  "save_effect st =
     (let st1 = st\<lparr>persist_calls := Suc (persist_calls st)\<rparr>
      in case setItem (localStorage st1) (JSON_stringify (targets st1)) of
           Inr sto \<Rightarrow> st1\<lparr>localStorage := sto\<rparr>
         | Inl error \<Rightarrow>
             emit \<lparr>title = js ''Error'', description = js ''Could not save your targets.'',
                   variant = Some destructive\<rparr>
               (st1\<lparr>console := console st1 @ [js ''Error saving targets:'']\<rparr>))"

text \<open>
  \<open>setTargets(f)\<close> with an updater function: the state becomes \<open>f prev\<close>, always a new
  array here (built by a spread, \<open>map\<close> or \<open>filter\<close>), so the component renders
  again and the saving effect runs. Each handler is modelled to the end of that
  render: its own toasts first, the effect last. A handler reads \<open>targets\<close> of the
  render it was created in, which is the current state when events are handled one
  at a time.
\<close>

text \<open>
  \<open>addTarget\<close>. The two parameters are the clock readings of \<open>Date.now()\<close> and of
  \<open>new Date()\<close>.
  \<^verbatim>\<open>
    if (!newTarget.trim()) {
      toast({ title: "Empty Target", description: "Please enter a target before adding.",
              variant: "destructive" });
      return;
    }
    const target = { id: Date.now().toString(), text: newTarget.trim(),
                     completed: false, createdAt: new Date() };
    setTargets(prev => [target, ...prev]);
    setNewTarget('');
    toast({ title: "Target Added!",
            description: `"${target.text}" has been added to your list.` });
  \<close>
\<close>

definition addTarget :: "int \<Rightarrow> int \<Rightarrow> TargetTracker \<Rightarrow> TargetTracker" where
  "addTarget now_id now_created st =
     (if trim (newTarget st) = [] then
        emit \<lparr>title = js ''Empty Target'',
              description = js ''Please enter a target before adding.'',
              variant = Some destructive\<rparr> st
      else
        let target = \<lparr>id' = Number_toString now_id, text' = trim (newTarget st),
                      completed = False, createdAt = Some now_created\<rparr>
        in save_effect
             (emit \<lparr>title = js ''Target Added!'',
                    description = [0x22] @ text' target @ [0x22]
                                  @ js '' has been added to your list.'',
                    variant = None\<rparr>
                (st\<lparr>targets := target # targets st, newTarget := []\<rparr>)))"

text \<open>
  \<open>toggleTarget\<close>:
  \<^verbatim>\<open>
    setTargets(prev => prev.map(target =>
      target.id === id ? { ...target, completed: !target.completed } : target));
  \<close>
\<close>

definition toggleTarget :: "jsstring \<Rightarrow> TargetTracker \<Rightarrow> TargetTracker" where
  "toggleTarget i st =
     save_effect
       (st\<lparr>targets :=
             map (\<lambda>target. if id' target = i
                            then target\<lparr>completed := \<not> completed target\<rparr>
                            else target)
                 (targets st)\<rparr>)"

text \<open>
  \<open>deleteTarget\<close>. When no target has the id, \<open>targetText\<close> is \<open>undefined\<close>, which the
  template literal prints as the word \<open>undefined\<close>.
  \<^verbatim>\<open>
    const targetText = targets.find(t => t.id === id)?.text;
    setTargets(prev => prev.filter(target => target.id !== id));
    toast({ title: "Target Removed", description: `"${targetText}" has been deleted.`,
            variant: "destructive" });
  \<close>
\<close>

definition deleteTarget :: "jsstring \<Rightarrow> TargetTracker \<Rightarrow> TargetTracker" where
  "deleteTarget i st =
     (let targetText = map_option text' (find (\<lambda>t. id' t = i) (targets st))
      in save_effect
           (emit \<lparr>title = js ''Target Removed'',
                  description =
                    [0x22] @ (case targetText of None \<Rightarrow> js ''undefined'' | Some s \<Rightarrow> s)
                    @ [0x22] @ js '' has been deleted.'',
                  variant = Some destructive\<rparr>
              (st\<lparr>targets := filter (\<lambda>target. id' target \<noteq> i) (targets st)\<rparr>)))"

text \<open>
  \<open>clearCompleted\<close>:
  \<^verbatim>\<open>
    const completedCount = targets.filter(t => t.completed).length;
    if (completedCount === 0) {
      toast({ title: "Nothing to Clear",
              description: "You have no completed targets to clear." });
      return;
    }
    setTargets(prev => prev.filter(target => !target.completed));
    toast({ title: "Completed Targets Cleared",
            description: `Removed ${completedCount} completed targets.` });
  \<close>
\<close>

definition clearCompleted :: "TargetTracker \<Rightarrow> TargetTracker" where
  "clearCompleted st =
     (let completedCount = length (filter completed (targets st))
      in if completedCount = 0 then
           emit \<lparr>title = js ''Nothing to Clear'',
                 description = js ''You have no completed targets to clear.'',
                 variant = None\<rparr> st
         else
           save_effect
             (emit \<lparr>title = js ''Completed Targets Cleared'',
                    description = js ''Removed '' @ Number_toString (int completedCount)
                                  @ js '' completed targets.'',
                    variant = None\<rparr>
                (st\<lparr>targets := filter (\<lambda>target. \<not> completed target) (targets st)\<rparr>)))"

text \<open>The counts of the summary (\<open>useMemo\<close>): \<open>targets.length\<close> and the completed ones.\<close>

definition totalCount :: "TargetTracker \<Rightarrow> nat" where
  "totalCount st = length (targets st)"

definition completedCount :: "TargetTracker \<Rightarrow> nat" where
  "completedCount st = length (filter completed (targets st))"

text \<open>
  The events of the component: typing into the input (\<open>setNewTarget(e.target.value)\<close>),
  Add or Enter, a checkbox, a delete button, Clear Completed.
\<close>

datatype event =
    Type jsstring
  | Add int int
  | Toggle jsstring
  | Delete jsstring
  | ClearCompleted

fun step :: "TargetTracker \<Rightarrow> event \<Rightarrow> TargetTracker" where
  "step st (Type s) = st\<lparr>newTarget := s\<rparr>"
| "step st (Add now_id now_created) = addTarget now_id now_created st"
| "step st (Toggle i) = toggleTarget i st"
| "step st (Delete i) = deleteTarget i st"
| "step st ClearCompleted = clearCompleted st"

text \<open>
  The state after the events \<open>evs\<close>, handled one at a time from the state \<open>st\<close>.
\<close>

definition run :: "TargetTracker \<Rightarrow> event list \<Rightarrow> TargetTracker" where
  "run st evs = foldl step st evs"

text \<open>
  The readings of \<open>Date.now()\<close> that become ids. \<open>addTarget\<close> reads the clock only
  after its guard, so a click on Add counts only when the input, trimmed, is not empty
  at that moment. The first argument is the text in the input before the events:
  typing replaces it, an accepted add empties it, nothing else changes it.
\<close>

fun id_clocks :: "jsstring \<Rightarrow> event list \<Rightarrow> int list" where
  "id_clocks input [] = []"
| "id_clocks input (Type s # evs) = id_clocks s evs"
| "id_clocks input (Add now_id now_created # evs) =
     (if trim input = [] then id_clocks input evs else now_id # id_clocks [] evs)"
| "id_clocks input (Toggle i # evs) = id_clocks input evs"
| "id_clocks input (Delete i # evs) = id_clocks input evs"
| "id_clocks input (ClearCompleted # evs) = id_clocks input evs"

text \<open>
  A storage with nothing saved, and the component mounted on it: the loading effect
  finds \<open>null\<close> and does nothing, and the saving effect of the first render writes the
  empty collection.
\<close>

definition empty_storage :: Storage where
  "empty_storage = \<lparr>dailyTargets = None, quota_exceeded = False\<rparr>"

definition fresh_tracker :: TargetTracker where
  "fresh_tracker = save_effect (TargetTracker_init empty_storage)"

section \<open>Loading the saved targets\<close>

text \<open>
  The loading effect hands to \<open>setTargets\<close> objects that no code has checked against
  the interface \<open>Target\<close> (the callback takes \<open>t: any\<close>), so the model keeps them as
  objects: the list of their own properties, each a JSON value or a \<open>Date\<close>.
\<close>

datatype jsvalue = Json json | DateObject Date

type_synonym jsobject = "(jsstring \<times> jsvalue) list"

text \<open>
  The own enumerable properties that the spread \<open>...t\<close> copies: those of an object,
  the elements of an array and the code units of a string under their indices, none
  for a number, a boolean or \<open>null\<close>.
\<close>

definition indices :: "nat \<Rightarrow> jsstring list" where
  "indices n = map (\<lambda>i. Number_toString (int i)) [0..<n]"

definition own_properties :: "json \<Rightarrow> (jsstring \<times> json) list" where
  "own_properties t =
     (case t of
        JObj ps \<Rightarrow> ps
      | JArr xs \<Rightarrow> zip (indices (length xs)) xs
      | JStr s \<Rightarrow> zip (indices (length s)) (map (\<lambda>c. JStr [c]) s)
      | _ \<Rightarrow> [])"

text \<open>
  \<open>t.createdAt\<close>: a \<open>TypeError\<close> on \<open>null\<close>, the property of an object when it has
  one, and \<open>undefined\<close> (\<open>None\<close>) in every other case, since no array, string, number
  or boolean has a property of that name.
\<close>

definition get_createdAt :: "json \<Rightarrow> js_error + json option" where
  "get_createdAt t =
     (case t of
        JNull \<Rightarrow> Inl TypeError
      | JObj ps \<Rightarrow> Inr (map_of ps (js ''createdAt''))
      | _ \<Rightarrow> Inr None)"

text \<open>
  \<open>new Date(v)\<close> first turns an object or an array into a primitive
  (\<open>ToPrimitive\<close>), and that step can throw. The values here come from
  \<open>JSON.parse\<close>, so no property of theirs is callable. For an object the methods
  tried are \<open>valueOf\<close>, which is skipped when it is an own property and returns the
  object itself when it is inherited, and \<open>toString\<close>: inherited, it returns a
  string; as an own property it is not callable, and a \<open>TypeError\<close> is thrown. For
  an array the inherited \<open>toString\<close> joins the strings of the elements (the empty
  string for \<open>null\<close>), and the string of an element that is an object or an array
  is found in the same way, with the same outcome. Limits of the host's stack are not
  modelled.
\<close>

fun ToPrimitive_throws :: "json \<Rightarrow> bool" where
  "ToPrimitive_throws (JObj ps) = (map_of ps (js ''toString'') \<noteq> None)"
| "ToPrimitive_throws (JArr xs) = (\<exists>x\<in>set xs. ToPrimitive_throws x)"
| "ToPrimitive_throws JNull = False"
| "ToPrimitive_throws (JBool b) = False"
| "ToPrimitive_throws (JNum n) = False"
| "ToPrimitive_throws (JStr s) = False"

text \<open>
  \<open>new Date(v)\<close>: NaN for \<open>undefined\<close>, the number of \<open>null\<close> (0), of a boolean or
  the number itself clipped to the range of time values, \<open>Date.parse\<close> for a string.
  An array or an object that has a primitive is read through the string it turns
  into; the model does not compute that string and leaves the \<open>Date\<close> to the
  parameter \<open>impl\<close>, as it does for the strings outside \<open>parse_ISO\<close>.
\<close>

definition Date_of_number :: "jsnumber \<Rightarrow> Date" where
  "Date_of_number n =
     (case n of
        PosInfinity \<Rightarrow> None
      | NegInfinity \<Rightarrow> None
      | Dyadic m e \<Rightarrow>
          if 0 \<le> e then TimeClip (m * 2 ^ nat e)
          else if \<bar>m\<bar> > 8640000000000000 * 2 ^ nat (- e) then None
          else Some (sgn m * (\<bar>m\<bar> div 2 ^ nat (- e))))"

definition Date_parse :: "(json \<Rightarrow> Date) \<Rightarrow> jsstring \<Rightarrow> Date" where
  "Date_parse impl s = (case parse_ISO s of Some d \<Rightarrow> d | None \<Rightarrow> impl (JStr s))"

definition new_Date :: "(json \<Rightarrow> Date) \<Rightarrow> json option \<Rightarrow> js_error + Date" where
  "new_Date impl v =
     (case v of
        None \<Rightarrow> Inr None
      | Some JNull \<Rightarrow> Inr (Some 0)
      | Some (JBool b) \<Rightarrow> Inr (Some (if b then 1 else 0))
      | Some (JNum n) \<Rightarrow> Inr (Date_of_number n)
      | Some (JStr s) \<Rightarrow> Inr (Date_parse impl s)
      | Some w \<Rightarrow> if ToPrimitive_throws w then Inl TypeError else Inr (impl w))"

text \<open>
  An object literal with a spread followed by a property: the property replaces the
  copied one of the same name in its place, or is added at the end.
\<close>

fun set_property :: "jsobject \<Rightarrow> jsstring \<Rightarrow> jsvalue \<Rightarrow> jsobject" where
  "set_property [] k v = [(k, v)]"
| "set_property ((k', v') # ps) k v =
     (if k' = k then (k, v) # ps else (k', v') # set_property ps k v)"

text \<open>
  The callback \<open>(t: any) => ({ ...t, createdAt: new Date(t.createdAt) })\<close>. It throws
  where \<open>t.createdAt\<close> or \<open>new Date\<close> throws; the spread throws on no JSON value.
\<close>

definition rehydrate :: "(json \<Rightarrow> Date) \<Rightarrow> json \<Rightarrow> js_error + jsobject" where
  "rehydrate impl t =
     (case get_createdAt t of
        Inl error \<Rightarrow> Inl error
      | Inr c \<Rightarrow>
          (case new_Date impl c of
             Inl error \<Rightarrow> Inl error
           | Inr d \<Rightarrow>
               Inr (set_property (map (\<lambda>(k, v). (k, Json v)) (own_properties t))
                      (js ''createdAt'') (DateObject d))))"

text \<open>\<open>Array.prototype.map\<close> with a callback that may throw: the first throw ends it.\<close>

fun map_throwing :: "('a \<Rightarrow> js_error + 'b) \<Rightarrow> 'a list \<Rightarrow> js_error + 'b list" where
  "map_throwing f [] = Inr []"
| "map_throwing f (x # xs) =
     (case f x of
        Inl error \<Rightarrow> Inl error
      | Inr y \<Rightarrow>
          (case map_throwing f xs of
             Inl error \<Rightarrow> Inl error
           | Inr ys \<Rightarrow> Inr (y # ys)))"

text \<open>
  \<open>parsed.map(...)\<close>: only an array has a method \<open>map\<close>; on \<open>null\<close> the property
  access throws, and on any other JSON value \<open>parsed.map\<close> is not a function. Both
  are \<open>TypeError\<close>s.
\<close>

definition map_parsed :: "(json \<Rightarrow> Date) \<Rightarrow> json \<Rightarrow> js_error + jsobject list" where
  "map_parsed impl parsed =
     (case parsed of
        JArr ts \<Rightarrow> map_throwing (rehydrate impl) ts
      | _ \<Rightarrow> Inl TypeError)"

text \<open>
  The loading effect, run once when the component mounts (its one dependency, the
  function \<open>toast\<close>, is taken to be the same at every render), in the initial state
  (no targets, no toast):
  \<^verbatim>\<open>
    const savedTargets = localStorage.getItem('dailyTargets');
    if (savedTargets) {
      try {
        const parsed = JSON.parse(savedTargets);
        setTargets(parsed.map((t: any) => ({ ...t, createdAt: new Date(t.createdAt) })));
      } catch (error) {
        console.error('Error loading targets:', error);
        toast({ title: "Error", description: "Could not load your saved targets.",
                variant: "destructive" });
      }
    }
  \<close>
  The outcome is the collection held afterwards (the argument of \<open>setTargets\<close>, or
  the initial empty array when it was not called), the toasts and the console lines.
  The empty string is falsy, as \<open>null\<close> is.
\<close>

record load_outcome =
  loaded :: "jsobject list"
  load_toasts :: "toast list"
  load_console :: "jsstring list"

definition load_failed :: load_outcome where
  "load_failed =
     \<lparr>loaded = [],
      load_toasts = [\<lparr>title = js ''Error'',
                      description = js ''Could not load your saved targets.'',
                      variant = Some destructive\<rparr>],
      load_console = [js ''Error loading targets:'']\<rparr>"

definition load :: "(json \<Rightarrow> Date) \<Rightarrow> Storage \<Rightarrow> load_outcome" where
  "load impl sto =
     (case getItem sto of
        None \<Rightarrow> \<lparr>loaded = [], load_toasts = [], load_console = []\<rparr>
      | Some savedTargets \<Rightarrow>
          if savedTargets = Empty_text
          then \<lparr>loaded = [], load_toasts = [], load_console = []\<rparr>
          else
            (case JSON_parse savedTargets of
               Inl error \<Rightarrow> load_failed
             | Inr parsed \<Rightarrow>
                 (case map_parsed impl parsed of
                    Inl error \<Rightarrow> load_failed
                  | Inr objects \<Rightarrow>
                      \<lparr>loaded = objects, load_toasts = [], load_console = []\<rparr>)))"

text \<open>
  The object that a \<open>Target\<close> is at run time, and the reading of an object at the
  interface \<open>Target\<close>: its four properties with their declared types.
\<close>

definition object_of_Target :: "Target \<Rightarrow> jsobject" where
  "object_of_Target t =
     [(js ''id'', Json (JStr (id' t))),
      (js ''text'', Json (JStr (text' t))),
      (js ''completed'', Json (JBool (completed t))),
      (js ''createdAt'', DateObject (createdAt t))]"

definition Target_of_object :: "jsobject \<Rightarrow> Target option" where
  "Target_of_object ob =
     (case (map_of ob (js ''id''), map_of ob (js ''text''), map_of ob (js ''completed''),
            map_of ob (js ''createdAt'')) of
        (Some (Json (JStr i)), Some (Json (JStr x)), Some (Json (JBool c)), Some (DateObject d)) \<Rightarrow>
          Some \<lparr>id' = i, text' = x, completed = c, createdAt = d\<rparr>
      | _ \<Rightarrow> None)"

text \<open>
  Mounting. The effects of the first render run in the order of the source: the
  loading effect, then the saving effect, which still sees the empty \<open>targets\<close> of
  that render. When the loading effect has called \<open>setTargets\<close>, the component
  renders again with the loaded collection and the saving effect runs once more. The
  state holds records of the interface \<open>Target\<close>, so the result is \<open>None\<close> when the
  loaded objects are not exactly the objects of such records.
\<close>

definition setTargets_called :: "(json \<Rightarrow> Date) \<Rightarrow> Storage \<Rightarrow> bool" where
  "setTargets_called impl sto =
     (case getItem sto of
        None \<Rightarrow> False
      | Some savedTargets \<Rightarrow>
          if savedTargets = Empty_text then False
          else
            (case JSON_parse savedTargets of
               Inl error \<Rightarrow> False
             | Inr parsed \<Rightarrow>
                 (case map_parsed impl parsed of Inl error \<Rightarrow> False | Inr objects \<Rightarrow> True)))"

definition Targets_of_objects :: "jsobject list \<Rightarrow> Target list option" where
  "Targets_of_objects obs =
     (case those (map Target_of_object obs) of
        None \<Rightarrow> None
      | Some ts \<Rightarrow> if map object_of_Target ts = obs then Some ts else None)"

definition mount :: "(json \<Rightarrow> Date) \<Rightarrow> Storage \<Rightarrow> TargetTracker option" where
  "mount impl sto =
     (let outcome = load impl sto;
          st1 = save_effect
                  ((TargetTracker_init sto)
                     \<lparr>toasts := load_toasts outcome, console := load_console outcome\<rparr>)
      in if setTargets_called impl sto then
           (case Targets_of_objects (loaded outcome) of
              None \<Rightarrow> None
            | Some ts \<Rightarrow> Some (save_effect (st1\<lparr>targets := ts\<rparr>)))
         else Some st1)"
section \<open>The install prompt component\<close>

text \<open>
  The component \<open>InstallPrompt\<close> keeps two pieces of React state: the retained
  \<open>beforeinstallprompt\<close> event (\<open>installPrompt\<close>, initially \<open>null\<close>) and the flag
  \<open>showPrompt\<close> (initially \<open>false\<close>). The event is opaque to the component, so the
  model is polymorphic in its type \<open>'e\<close>. The field \<open>prompt_calls\<close> is a ghost counter of
  the calls of the platform's \<open>prompt()\<close> made so far; it does not exist in the source
  and no branch of the model reads it.
\<close>

record 'e InstallPrompt =
  installPrompt :: "'e option"
  showPrompt :: bool
  prompt_calls :: nat

definition InstallPrompt_init :: "'e InstallPrompt" where
  "InstallPrompt_init = \<lparr>installPrompt = None, showPrompt = False, prompt_calls = 0\<rparr>"

text \<open>
  \<open>handleBeforeInstallPrompt\<close>: \<open>setInstallPrompt(e); setShowPrompt(true)\<close>
  (the call \<open>e.preventDefault()\<close> acts on the platform, not on the component).
\<close>

definition handleBeforeInstallPrompt :: "'e \<Rightarrow> 'e InstallPrompt \<Rightarrow> 'e InstallPrompt" where
  "handleBeforeInstallPrompt e st = st\<lparr>installPrompt := Some e, showPrompt := True\<rparr>"

text \<open>
  What the platform answers to a call of \<open>prompt()\<close>: its promise may reject (then
  the \<open>await\<close> throws and the rest of the handler does not run), or it resolves and
  \<open>userChoice\<close> resolves to one of the two outcomes.
\<close>

datatype outcome = accepted | dismissed

datatype platform_answer = prompt_rejected | userChoice outcome

text \<open>
  \<open>handleInstall\<close> is asynchronous:
  \<^verbatim>\<open>
    if (!installPrompt) return;
    await installPrompt.prompt();
    const { outcome } = await installPrompt.userChoice;
    if (outcome === 'accepted') { setShowPrompt(false); setInstallPrompt(null); }
  \<close>
  \<open>handleInstall_begin\<close> is the part that runs at the click, up to the first
  \<open>await\<close>: \<open>None\<close> when the handler has returned at once, the state after the call
  of \<open>prompt()\<close> otherwise. \<open>handleInstall_resume\<close> is the part that runs when the
  platform has answered, on the state of that moment; it reads no state.
  \<open>handleInstall\<close> is the handler run from the click to its end with nothing in
  between.
\<close>

definition handleInstall_begin :: "'e InstallPrompt \<Rightarrow> 'e InstallPrompt option" where
  "handleInstall_begin st =
     (case installPrompt st of
        None \<Rightarrow> None
      | Some e \<Rightarrow> Some (st\<lparr>prompt_calls := Suc (prompt_calls st)\<rparr>))"

definition handleInstall_resume :: "platform_answer \<Rightarrow> 'e InstallPrompt \<Rightarrow> 'e InstallPrompt" where
  "handleInstall_resume answer st =
     (case answer of
        prompt_rejected \<Rightarrow> st
      | userChoice oc \<Rightarrow>
          if oc = accepted then st\<lparr>showPrompt := False, installPrompt := None\<rparr> else st)"

definition handleInstall :: "platform_answer \<Rightarrow> 'e InstallPrompt \<Rightarrow> 'e InstallPrompt" where
  "handleInstall answer st =
     (case handleInstall_begin st of
        None \<Rightarrow> st
      | Some st1 \<Rightarrow> handleInstall_resume answer st1)"

text \<open>\<open>handleDismiss\<close>: \<open>setShowPrompt(false)\<close>.\<close>

definition handleDismiss :: "'e InstallPrompt \<Rightarrow> 'e InstallPrompt" where
  "handleDismiss st = st\<lparr>showPrompt := False\<rparr>"

text \<open>
  The render function returns \<open>null\<close> when \<open>!showPrompt || !installPrompt\<close> and the
  banner otherwise.
\<close>

definition banner_rendered :: "'e InstallPrompt \<Rightarrow> bool" where
  "banner_rendered st = (\<not> (\<not> showPrompt st \<or> installPrompt st = None))"

text \<open>
  The events the component reacts to. Other events may arrive while a handler waits
  for the platform, so a click on Install and the platform's answer are two events;
  the number beside the state counts the handlers that wait. An answer with no handler
  waiting changes nothing.
\<close>

datatype 'e install_event =
    BeforeInstallPrompt 'e
  | ClickInstall
  | PlatformAnswer platform_answer
  | ClickDismiss

fun install_step :: "'e InstallPrompt \<times> nat \<Rightarrow> 'e install_event \<Rightarrow> 'e InstallPrompt \<times> nat" where
  "install_step (st, k) (BeforeInstallPrompt e) = (handleBeforeInstallPrompt e st, k)"
| "install_step (st, k) ClickInstall =
     (case handleInstall_begin st of None \<Rightarrow> (st, k) | Some st1 \<Rightarrow> (st1, Suc k))"
| "install_step (st, 0) (PlatformAnswer answer) = (st, 0)"
| "install_step (st, Suc k) (PlatformAnswer answer) = (handleInstall_resume answer st, k)"
| "install_step (st, k) ClickDismiss = (handleDismiss st, k)"

definition install_run :: "'e install_event list \<Rightarrow> 'e InstallPrompt" where
  "install_run evs = fst (foldl install_step (InstallPrompt_init, 0) evs)"

section \<open>Properties of trimming and of numerals\<close>

lemma trim_eq_Nil_iff: "trim s = [] \<longleftrightarrow> (\<forall>c\<in>set s. isWhiteSpace c)"
proof
  assume "trim s = []"
  then have all: "\<forall>c\<in>set (dropWhile isWhiteSpace s). isWhiteSpace c"
    by (simp add: trim_def dropWhile_eq_Nil_conv)
  have "dropWhile isWhiteSpace s = []"
  proof (rule ccontr)
    assume ne: "dropWhile isWhiteSpace s \<noteq> []"
    then have "\<not> isWhiteSpace (hd (dropWhile isWhiteSpace s))"
      by (rule hd_dropWhile)
    moreover have "hd (dropWhile isWhiteSpace s) \<in> set (dropWhile isWhiteSpace s)"
      using ne by (rule hd_in_set)
    ultimately show False using all by blast
  qed
  then show "\<forall>c\<in>set s. isWhiteSpace c"
    by (simp add: dropWhile_eq_Nil_conv)
next
  assume "\<forall>c\<in>set s. isWhiteSpace c"
  then show "trim s = []"
    by (auto simp: trim_def dropWhile_eq_Nil_conv dest: set_dropWhileD)
qed

lemma unat_digit: "d < 10 \<Longrightarrow> unat (digit d) = 48 + d"
  unfolding digit_def by (simp only: unat_of_nat) simp

lemma digit_inj:
  assumes "a < 10" and "b < 10" and "digit a = digit b"
  shows "a = b"
proof -
  have "unat (digit a) = unat (digit b)"
    by (simp only: assms(3))
  then have "48 + a = 48 + b"
    by (simp only: unat_digit [OF assms(1)] unat_digit [OF assms(2)])
  then show ?thesis by simp
qed

lemma digits_not_Nil: "digits n \<noteq> []"
  by (subst digits.simps) simp

lemma digits_inj: "digits m = digits n \<Longrightarrow> m = n"
proof (induction m arbitrary: n rule: digits.induct)
  case (1 m)
  show ?case
  proof (cases "m < 10")
    case m: True
    show ?thesis
    proof (cases "n < 10")
      case True
      with m "1.prems" show ?thesis
        by (simp add: digits.simps [of m] digits.simps [of n] digit_inj)
    next
      case False
      with m "1.prems" digits_not_Nil [of "n div 10"] show ?thesis
        by (simp add: digits.simps [of m] digits.simps [of n])
    qed
  next
    case m: False
    show ?thesis
    proof (cases "n < 10")
      case True
      with m "1.prems" digits_not_Nil [of "m div 10"] show ?thesis
        by (simp add: digits.simps [of m] digits.simps [of n])
    next
      case False
      with m "1.prems" have e: "digits (m div 10) = digits (n div 10)"
        and d: "digit (m mod 10) = digit (n mod 10)"
        by (simp_all add: digits.simps [of m] digits.simps [of n])
      have "m div 10 = n div 10"
        using "1.IH" [OF m e] .
      moreover have "m mod 10 = n mod 10"
        using d by (simp add: digit_inj)
      ultimately show ?thesis
        by (metis div_mult_mod_eq)
    qed
  qed
qed

lemma hd_digits: "\<exists>d<10. hd (digits n) = digit d"
proof (induction n rule: digits.induct)
  case (1 n)
  show ?case
  proof (cases "n < 10")
    case True
    then show ?thesis by (auto simp: digits.simps [of n])
  next
    case False
    then show ?thesis
      using "1.IH" digits_not_Nil [of "n div 10"] by (simp add: digits.simps [of n])
  qed
qed

lemma digits_no_sign: "digits n \<noteq> 0x2D # s"
proof
  assume e: "digits n = 0x2D # s"
  obtain d where d: "d < 10" "hd (digits n) = digit d"
    using hd_digits by blast
  then have "unat (0x2D :: 16 word) = 48 + d"
    using e unat_digit [of d] by simp
  then show False by simp
qed

lemma Number_toString_inj: "Number_toString a = Number_toString b \<Longrightarrow> a = b"
proof -
  assume e: "Number_toString a = Number_toString b"
  consider "a < 0" "b < 0" | "a < 0" "0 \<le> b" | "0 \<le> a" "b < 0" | "0 \<le> a" "0 \<le> b"
    by linarith
  then show ?thesis
  proof cases
    case 1
    with e have "nat (- a) = nat (- b)"
      by (simp add: Number_toString_def digits_inj)
    with 1 show ?thesis by simp
  next
    case 2
    with e digits_no_sign [of "nat b" "digits (nat (- a))"] show ?thesis
      by (simp add: Number_toString_def)
  next
    case 3
    with e digits_no_sign [of "nat a" "digits (nat (- b))"] show ?thesis
      by (simp add: Number_toString_def)
  next
    case 4
    with e have "nat a = nat b"
      by (simp add: Number_toString_def digits_inj)
    with 4 show ?thesis by simp
  qed
qed

section \<open>Properties of the date functions\<close>

subsection \<open>Years and days\<close>

lemma div_step:
  fixes a k :: int
  assumes "0 < k"
  shows "(a + 1) div k = (if (a + 1) mod k = 0 then a div k + 1 else a div k)"
proof -
  define q where "q = a div k"
  define r where "r = a mod k"
  have a: "a = k * q + r" by (simp add: q_def r_def)
  have r: "0 \<le> r" "r < k" using assms by (simp_all add: r_def)
  show ?thesis
  proof (cases "r = k - 1")
    case True
    have e: "a + 1 = k * (q + 1) + 0" using a True by (simp add: algebra_simps)
    have "(a + 1) div k = q + 1" using int_div_pos_eq [OF e] assms by simp
    moreover have "(a + 1) mod k = 0" using int_mod_pos_eq [OF e] assms by simp
    ultimately show ?thesis by (simp add: q_def)
  next
    case False
    have e: "a + 1 = k * q + (r + 1)" using a by simp
    have b: "0 \<le> r + 1" "r + 1 < k" using r False by simp_all
    have "(a + 1) div k = q" using int_div_pos_eq [OF e b] .
    moreover have "(a + 1) mod k = r + 1" using int_mod_pos_eq [OF e b] .
    ultimately show ?thesis using r by (simp add: q_def)
  qed
qed

lemma mod_100_4: "(y::int) mod 100 = 0 \<Longrightarrow> y mod 4 = 0"
proof -
  assume "y mod 100 = 0"
  then have "100 dvd y" by (simp add: mod_eq_0_iff_dvd)
  moreover have "(4::int) dvd 100" by simp
  ultimately have "4 dvd y" by (rule dvd_trans [rotated])
  then show ?thesis by (simp add: mod_eq_0_iff_dvd)
qed

lemma mod_400_100: "(y::int) mod 400 = 0 \<Longrightarrow> y mod 100 = 0"
proof -
  assume "y mod 400 = 0"
  then have "400 dvd y" by (simp add: mod_eq_0_iff_dvd)
  moreover have "(100::int) dvd 400" by simp
  ultimately have "100 dvd y" by (rule dvd_trans [rotated])
  then show ?thesis by (simp add: mod_eq_0_iff_dvd)
qed

lemma mod_shift:
  "((y::int) - 1968) mod 4 = y mod 4"
  "((y::int) - 1900) mod 100 = y mod 100"
  "((y::int) - 1600) mod 400 = y mod 400"
  using mod_mult_self1 [of y "-492" 4] mod_mult_self1 [of y "-19" 100]
    mod_mult_self1 [of y "-4" 400]
  by simp_all

lemma DayFromYear_Suc: "DayFromYear (y + 1) = DayFromYear y + DaysInYear y"
proof -
  have a: "(y + 1 - 1969) div 4 = (if y mod 4 = 0 then (y - 1969) div 4 + 1 else (y - 1969) div 4)"
    using div_step [of 4 "y - 1969"] mod_shift(1) [of y] by (simp add: algebra_simps)
  have b: "(y + 1 - 1901) div 100
           = (if y mod 100 = 0 then (y - 1901) div 100 + 1 else (y - 1901) div 100)"
    using div_step [of 100 "y - 1901"] mod_shift(2) [of y] by (simp add: algebra_simps)
  have c: "(y + 1 - 1601) div 400
           = (if y mod 400 = 0 then (y - 1601) div 400 + 1 else (y - 1601) div 400)"
    using div_step [of 400 "y - 1601"] mod_shift(3) [of y] by (simp add: algebra_simps)
  have "DayFromYear (y + 1)
        = 365 * (y + 1 - 1970) + (y + 1 - 1969) div 4 - (y + 1 - 1901) div 100
          + (y + 1 - 1601) div 400"
    by (simp only: DayFromYear_def)
  also have "\<dots> = DayFromYear y + DaysInYear y"
    unfolding a b c DayFromYear_def DaysInYear_def
    using mod_100_4 [of y] mod_400_100 [of y] by auto
  finally show ?thesis .
qed

lemma DaysInYear_cases: "DaysInYear y = 365 \<or> DaysInYear y = 366"
  by (simp add: DaysInYear_def)

lemma year_down_le: "DayFromYear (year_down d y) \<le> d"
proof (induction d y rule: year_down.induct)
  case (1 d y)
  then show ?case by (simp add: year_down.simps [of d y])
qed

lemma year_up_bounds:
  "d < DayFromYear (year_up d y + 1)
   \<and> (DayFromYear y \<le> d \<longrightarrow> DayFromYear (year_up d y) \<le> d)"
proof (induction d y rule: year_up.induct)
  case (1 d y)
  then show ?case by (simp add: year_up.simps [of d y])
qed

lemma YearFromDay_bounds:
  "DayFromYear (YearFromDay d) \<le> d" "d < DayFromYear (YearFromDay d + 1)"
  using year_up_bounds [of d "year_down d (1970 + d div 365)"] year_down_le [of d "1970 + d div 365"]
  by (simp_all add: YearFromDay_def)

lemma div_bounds:
  fixes a k :: int
  assumes "0 < k"
  shows "k * (a div k) \<le> a" "a < k * (a div k) + k"
proof -
  have "a = k * (a div k) + a mod k" by simp
  moreover have "0 \<le> a mod k" "a mod k < k" using assms by simp_all
  ultimately show "k * (a div k) \<le> a" "a < k * (a div k) + k" by linarith+
qed

lemma DayFromYear_estimate:
  "146097 * y - 287812000 \<le> 400 * DayFromYear y"
  "400 * DayFromYear y \<le> 146097 * y - 287610000"
proof -
  note b4 = div_bounds [of 4 "y - 1969"]
  note b100 = div_bounds [of 100 "y - 1901"]
  note b400 = div_bounds [of 400 "y - 1601"]
  have e: "400 * DayFromYear y
           = 146000 * (y - 1970) + 100 * (4 * ((y - 1969) div 4))
             - 4 * (100 * ((y - 1901) div 100)) + 400 * ((y - 1601) div 400)"
    by (simp add: DayFromYear_def algebra_simps)
  show "146097 * y - 287812000 \<le> 400 * DayFromYear y"
    unfolding e using b4 b100 b400 by simp
  show "400 * DayFromYear y \<le> 146097 * y - 287610000"
    unfolding e using b4 b100 b400 by simp
qed

lemma YearFromDay_range:
  assumes "- 100000000 \<le> d" and "d \<le> 100000000"
  shows "- 999999 \<le> YearFromDay d" "YearFromDay d \<le> 999999"
proof -
  let ?y = "YearFromDay d"
  have "146097 * ?y - 287812000 \<le> 400 * d"
    using DayFromYear_estimate(1) [of ?y] YearFromDay_bounds(1) [of d] by linarith
  with assms(2) show "?y \<le> 999999" by linarith
  have "400 * d < 146097 * (?y + 1) - 287610000"
    using DayFromYear_estimate(2) [of "?y + 1"] YearFromDay_bounds(2) [of d] by linarith
  with assms(1) show "- 999999 \<le> ?y" by simp
qed

lemma day_within_year:
  "0 \<le> d - DayFromYear (YearFromDay d)"
  "d - DayFromYear (YearFromDay d) < DaysInYear (YearFromDay d)"
  using YearFromDay_bounds [of d] DayFromYear_Suc [of "YearFromDay d"] by linarith+

subsection \<open>Months\<close>

lemma month_start_values:
  "month_start leap 0 = 0"
  "month_start leap 1 = 31"
  "month_start leap 2 = (if leap then 60 else 59)"
  "month_start leap 3 = (if leap then 91 else 90)"
  "month_start leap 4 = (if leap then 121 else 120)"
  "month_start leap 5 = (if leap then 152 else 151)"
  "month_start leap 6 = (if leap then 182 else 181)"
  "month_start leap 7 = (if leap then 213 else 212)"
  "month_start leap 8 = (if leap then 244 else 243)"
  "month_start leap 9 = (if leap then 274 else 273)"
  "month_start leap 10 = (if leap then 305 else 304)"
  "month_start leap 11 = (if leap then 335 else 334)"
  "month_start leap 12 = (if leap then 366 else 365)"
  by (simp_all add: month_start_def)

lemma month_of_day:
  assumes "0 \<le> n" and "n < (if leap then 366 else 365)"
  shows "MonthFromDayWithinYear leap n \<le> 11
         \<and> month_start leap (MonthFromDayWithinYear leap n) \<le> n
         \<and> n < month_start leap (MonthFromDayWithinYear leap n + 1)"
  using assms
  by (cases leap) (auto simp: MonthFromDayWithinYear_def month_start_def eval_nat_numeral)

subsection \<open>Writing and reading digits\<close>

lemma digit_value_digit: "d < 10 \<Longrightarrow> digit_value (digit d) = Some d"
  by (simp add: digit_value_def word_le_nat_alt unat_digit)

lemma digit_not_sign: "d < 10 \<Longrightarrow> digit d \<noteq> 0x2B \<and> digit d \<noteq> 0x2D"
proof -
  assume d: "d < 10"
  have "unat (digit d) \<noteq> unat (0x2B :: 16 word)" "unat (digit d) \<noteq> unat (0x2D :: 16 word)"
    by (simp_all add: unat_digit [OF d])
  then show ?thesis by auto
qed

lemma read_digits_Suc:
  "read_digits (Suc k) acc s =
     (case read_digits k acc s of
        None \<Rightarrow> None
      | Some (a, []) \<Rightarrow> None
      | Some (a, c # r) \<Rightarrow>
          (case digit_value c of None \<Rightarrow> None | Some v \<Rightarrow> Some (10 * a + v, r)))"
proof (induction k arbitrary: acc s)
  case 0
  show ?case by (cases s) (simp_all split: option.splits)
next
  case (Suc k)
  show ?case
  proof (cases s)
    case Nil
    then show ?thesis by simp
  next
    case (Cons c r)
    show ?thesis
    proof (cases "digit_value c")
      case None
      with Cons show ?thesis by simp
    next
      case (Some v)
      have "read_digits (Suc (Suc k)) acc s = read_digits (Suc k) (10 * acc + v) r"
        using Cons Some by simp
      also have "\<dots> = (case read_digits k (10 * acc + v) r of
                          None \<Rightarrow> None
                        | Some (a, []) \<Rightarrow> None
                        | Some (a, c # r) \<Rightarrow>
                            (case digit_value c of None \<Rightarrow> None | Some v \<Rightarrow> Some (10 * a + v, r)))"
        by (rule Suc.IH)
      also have "read_digits k (10 * acc + v) r = read_digits (Suc k) acc s"
        using Cons Some by simp
      finally show ?thesis .
    qed
  qed
qed

lemma read_digits_pad:
  "n < 10 ^ k \<Longrightarrow> read_digits k acc (pad k n @ r) = Some (acc * 10 ^ k + n, r)"
proof (induction k arbitrary: n r)
  case 0
  then show ?case by simp
next
  case (Suc k)
  from Suc.prems have "n div 10 < 10 ^ k"
    by (simp add: less_mult_imp_div_less mult.commute)
  then have "read_digits k acc (pad k (n div 10) @ (digit (n mod 10) # r))
             = Some (acc * 10 ^ k + n div 10, digit (n mod 10) # r)"
    by (rule Suc.IH)
  then have "read_digits (Suc k) acc (pad (Suc k) n @ r)
             = Some (10 * (acc * 10 ^ k + n div 10) + n mod 10, r)"
    by (simp add: read_digits_Suc [of k] digit_value_digit)
  moreover have "10 * (acc * 10 ^ k + n div 10) + n mod 10 = acc * 10 ^ Suc k + n"
    by (simp add: algebra_simps)
  ultimately show ?case by simp
qed

lemma pad_starts_with_digit: "\<exists>d<10. \<exists>s. pad (Suc k) n = digit d # s"
proof (induction k arbitrary: n)
  case 0
  have "n mod 10 < 10 \<and> pad (Suc 0) n = digit (n mod 10) # []" by simp
  then show ?case by blast
next
  case (Suc k)
  obtain d s where "d < 10" "pad (Suc k) (n div 10) = digit d # s"
    using Suc.IH [of "n div 10"] by blast
  then have "d < 10 \<and> pad (Suc (Suc k)) n = digit d # (s @ [digit (n mod 10)])"
    by simp
  then show ?case by blast
qed

lemma read_year_unsigned:
  "d < 10 \<Longrightarrow>
   read_year (digit d # s) =
     (case read_digits 4 0 (digit d # s) of None \<Rightarrow> None | Some (n, r') \<Rightarrow> Some (int n, r'))"
  using digit_not_sign [of d] by (simp add: read_year_def)

lemma read_year_plus:
  "read_year (0x2B # s) =
     (case read_digits 6 0 s of None \<Rightarrow> None | Some (n, r') \<Rightarrow> Some (int n, r'))"
  by (simp add: read_year_def)

lemma read_year_minus:
  "read_year (0x2D # s) =
     (case read_digits 6 0 s of
        None \<Rightarrow> None
      | Some (n, r') \<Rightarrow> if n = 0 then None else Some (- int n, r'))"
  by (simp add: read_year_def)

lemma read_year_year_string:
  assumes "- 999999 \<le> y" and "y \<le> 999999"
  shows "read_year (year_string y @ r) = Some (y, r)"
proof (cases "0 \<le> y \<and> y \<le> 9999")
  case True
  have "Suc 3 = 4" by simp
  then have "\<exists>d<10. \<exists>s. pad 4 (nat y) = digit d # s"
    using pad_starts_with_digit [of 3 "nat y"] by (simp only:)
  then obtain d s where d: "d < 10" and p: "pad 4 (nat y) = digit d # s"
    by blast
  have "nat y < 10000" using True by linarith
  then have n: "nat y < 10 ^ 4" by simp
  have "read_year (year_string y @ r) = read_year (pad 4 (nat y) @ r)"
    using True by (simp add: year_string_def)
  also have "\<dots> = read_year (digit d # (s @ r))"
    by (simp only: p append_Cons)
  also have "\<dots> = (case read_digits 4 0 (digit d # (s @ r)) of
                      None \<Rightarrow> None | Some (n, r') \<Rightarrow> Some (int n, r'))"
    by (rule read_year_unsigned [OF d])
  also have "digit d # (s @ r) = pad 4 (nat y) @ r"
    by (simp only: p append_Cons)
  also have "(case read_digits 4 0 (pad 4 (nat y) @ r) of
                None \<Rightarrow> None | Some (n, r') \<Rightarrow> Some (int n, r')) = Some (y, r)"
    using True by (simp only: read_digits_pad [OF n]) simp
  finally show ?thesis .
next
  case False
  have "nat \<bar>y\<bar> < 1000000" using assms by linarith
  then have n: "nat \<bar>y\<bar> < 10 ^ 6" by simp
  have rd: "read_digits 6 0 (pad 6 (nat \<bar>y\<bar>) @ r) = Some (nat \<bar>y\<bar>, r)"
    by (simp only: read_digits_pad [OF n]) simp
  show ?thesis
  proof (cases "y < 0")
    case True
    have "read_year (year_string y @ r) = read_year (0x2D # (pad 6 (nat \<bar>y\<bar>) @ r))"
      using True False by (simp add: year_string_def)
    also have "\<dots> = Some (y, r)"
      using True by (simp only: read_year_minus rd) simp
    finally show ?thesis .
  next
    case neg: False
    have "read_year (year_string y @ r) = read_year (0x2B # (pad 6 (nat \<bar>y\<bar>) @ r))"
      using neg False by (simp add: year_string_def)
    also have "\<dots> = Some (y, r)"
      using neg by (simp only: read_year_plus rd) simp
    finally show ?thesis .
  qed
qed

subsection \<open>The time within the day\<close>

lemma time_fields:
  fixes w :: int
  assumes "0 \<le> w" and "w < 86400000"
  shows "w div 3600000 * 3600000 + w div 60000 mod 60 * 60000 + w div 1000 mod 60 * 1000
         + w mod 1000 = w"
    and "0 \<le> w div 3600000" and "w div 3600000 \<le> 23"
proof -
  have a: "w div 60000 = w div 1000 div 60"
    using zdiv_zmult2_eq [of 60 w 1000] by simp
  have b: "w div 3600000 = w div 60000 div 60"
    using zdiv_zmult2_eq [of 60 w 60000] by simp
  have 1: "w = 1000 * (w div 1000) + w mod 1000" by simp
  have 2: "w div 1000 = 60 * (w div 1000 div 60) + w div 1000 mod 60" by simp
  have 3: "w div 60000 = 60 * (w div 60000 div 60) + w div 60000 mod 60" by simp
  show "w div 3600000 * 3600000 + w div 60000 mod 60 * 60000 + w div 1000 mod 60 * 1000
        + w mod 1000 = w"
    using 1 2 3 unfolding b a [symmetric] by linarith
  show "0 \<le> w div 3600000" using assms(1) by (simp add: pos_imp_zdiv_nonneg_iff)
  have "w div 3600000 \<le> 86399999 div 3600000"
    using assms(2) by (intro zdiv_mono1) simp_all
  then show "w div 3600000 \<le> 23" by simp
qed

subsection \<open>Reading back what \<open>toISOString\<close> writes\<close>

lemma parse_ISO_fields:
  assumes year: "\<And>r. read_year (ys @ r) = Some (y, r)"
    and "mo < 100" "dd < 100" "h < 100" "mi < 100" "sec < 100" "ms < 1000"
  shows "parse_ISO (ys @ js ''-'' @ pad 2 mo @ js ''-'' @ pad 2 dd @ js ''T'' @ pad 2 h
                    @ js '':'' @ pad 2 mi @ js '':'' @ pad 2 sec @ js ''.'' @ pad 3 ms @ js ''Z'')
         = (if 1 \<le> mo \<and> mo \<le> 12 \<and> 1 \<le> dd
               \<and> int dd \<le> month_start (InLeapYear y) mo - month_start (InLeapYear y) (mo - 1)
               \<and> h \<le> 23 \<and> mi \<le> 59 \<and> sec \<le> 59
            then Some (TimeClip (MakeDate y mo dd h mi sec ms))
            else None)"
proof -
  have two: "read_digits 2 0 (pad 2 n @ r) = Some (n, r)" if "n < 100" for n r
    using read_digits_pad [of n 2 0 r] that by simp
  have three: "read_digits 3 0 (pad 3 n @ r) = Some (n, r)" if "n < 1000" for n r
    using read_digits_pad [of n 3 0 r] that by simp
  have c: "js ''-'' = [0x2D]" "js ''T'' = [0x54]" "js '':'' = [0x3A]" "js ''.'' = [0x2E]"
    "js ''Z'' = [0x5A]"
    by (simp_all add: js_def)
  show ?thesis
    unfolding parse_ISO_def c
    by (simp only: year two [OF assms(2)] two [OF assms(3)] two [OF assms(4)]
        two [OF assms(5)] two [OF assms(6)] three [OF assms(7)]
        append_Cons append_Nil expect.simps bind.bind_lunit prod.case if_True simp_thms)
qed

lemma date_at_most_31:
  assumes "0 \<le> n" and "n < (if leap then 366 else 365)"
  shows "n < month_start leap (MonthFromDayWithinYear leap n) + 31"
  using assms
  by (cases leap) (auto simp: MonthFromDayWithinYear_def month_start_def eval_nat_numeral)

lemma Day_range:
  assumes "\<bar>t\<bar> \<le> 8640000000000000"
  shows "- 100000000 \<le> Day t" "Day t \<le> 100000000"
proof -
  have "(- 8640000000000000) div 86400000 \<le> t div (86400000::int)"
    using assms by (intro zdiv_mono1) simp_all
  then show "- 100000000 \<le> Day t" by (simp add: Day_def msPerDay_def)
  have "t div 86400000 \<le> 8640000000000000 div (86400000::int)"
    using assms by (intro zdiv_mono1) simp_all
  then show "Day t \<le> 100000000" by (simp add: Day_def msPerDay_def)
qed

lemma parse_ISO_toISOString:
  assumes "\<bar>t\<bar> \<le> 8640000000000000"
  shows "parse_ISO (toISOString t) = Some (Some t)"
proof -
  define d where "d = Day t"
  define w where "w = TimeWithinDay t"
  define y where "y = YearFromDay d"
  define n where "n = d - DayFromYear y"
  define leap where "leap = InLeapYear y"
  define m where "m = MonthFromDayWithinYear leap n"
  define date where "date = n - month_start leap m + 1"
  have t: "t = d * msPerDay + w"
    by (simp add: d_def w_def Day_def TimeWithinDay_def)
  have w: "0 \<le> w" "w < 86400000"
    by (simp_all add: w_def TimeWithinDay_def msPerDay_def)
  have y: "- 999999 \<le> y" "y \<le> 999999"
    using YearFromDay_range [of d] Day_range [OF assms] by (simp_all add: y_def d_def)
  have n: "0 \<le> n" "n < (if leap then 366 else 365)"
    using day_within_year [of d] DaysInYear_cases [of y]
    by (auto simp: n_def y_def leap_def InLeapYear_def)
  note mo = month_of_day [OF n, folded m_def]
  have date: "1 \<le> date" "date \<le> month_start leap (m + 1) - month_start leap m" "date \<le> 31"
    using mo date_at_most_31 [OF n, folded m_def] by (simp_all add: date_def)
  note tf = time_fields [OF w]
  have f: "m + 1 < 100" "nat date < 100" "nat (w div 3600000) < 100"
    "nat (w div 60000 mod 60) < 100" "nat (w div 1000 mod 60) < 100" "nat (w mod 1000) < 1000"
    using mo date tf(2,3) by simp_all
  have mi: "nat (w div 60000 mod 60) \<le> 59"
  proof -
    have "w div 60000 mod 60 < 60" by simp
    then show ?thesis by linarith
  qed
  have sec: "nat (w div 1000 mod 60) \<le> 59"
  proof -
    have "w div 1000 mod 60 < 60" by simp
    then show ?thesis by linarith
  qed
  have h: "nat (w div 3600000) \<le> 23"
    using tf(3) by linarith
  have d1: "1 \<le> nat date"
    using date(1) by linarith
  have d2: "int (nat date)
            \<le> month_start (InLeapYear y) (m + 1) - month_start (InLeapYear y) (m + 1 - 1)"
    using date(1,2) by (simp add: leap_def)
  have m1: "1 \<le> m + 1" "m + 1 \<le> 12"
    using mo by simp_all
  have valid: "1 \<le> m + 1 \<and> m + 1 \<le> 12 \<and> 1 \<le> nat date
      \<and> int (nat date) \<le> month_start (InLeapYear y) (m + 1) - month_start (InLeapYear y) (m + 1 - 1)
      \<and> nat (w div 3600000) \<le> 23 \<and> nat (w div 60000 mod 60) \<le> 59
      \<and> nat (w div 1000 mod 60) \<le> 59"
    by (intro conjI m1 d1 d2 h mi sec)
  have "MakeDate y (m + 1) (nat date) (nat (w div 3600000)) (nat (w div 60000 mod 60))
          (nat (w div 1000 mod 60)) (nat (w mod 1000))
        = (DayFromYear y + month_start leap m + date - 1) * msPerDay
          + (w div 3600000 * 3600000 + w div 60000 mod 60 * 60000 + w div 1000 mod 60 * 1000
             + w mod 1000)"
    using date(1) tf(2) by (simp add: MakeDate_def leap_def)
  also have "\<dots> = (DayFromYear y + month_start leap m + date - 1) * msPerDay + w"
    by (simp only: tf(1))
  also have "DayFromYear y + month_start leap m + date - 1 = d"
    by (simp add: date_def n_def)
  also have "d * msPerDay + w = t"
    by (rule t [symmetric])
  finally have md: "MakeDate y (m + 1) (nat date) (nat (w div 3600000)) (nat (w div 60000 mod 60))
          (nat (w div 1000 mod 60)) (nat (w mod 1000)) = t" .
  have iso: "toISOString t
        = year_string y @ js ''-'' @ pad 2 (m + 1) @ js ''-'' @ pad 2 (nat date) @ js ''T''
          @ pad 2 (nat (w div 3600000)) @ js '':'' @ pad 2 (nat (w div 60000 mod 60)) @ js '':''
          @ pad 2 (nat (w div 1000 mod 60)) @ js ''.'' @ pad 3 (nat (w mod 1000)) @ js ''Z''"
    by (simp only: toISOString_def Let_def d_def [symmetric] w_def [symmetric] y_def [symmetric]
        n_def [symmetric] leap_def [symmetric] m_def [symmetric] date_def [symmetric])
  have "parse_ISO (toISOString t)
        = (if 1 \<le> m + 1 \<and> m + 1 \<le> 12 \<and> 1 \<le> nat date
            \<and> int (nat date)
                \<le> month_start (InLeapYear y) (m + 1) - month_start (InLeapYear y) (m + 1 - 1)
            \<and> nat (w div 3600000) \<le> 23 \<and> nat (w div 60000 mod 60) \<le> 59
            \<and> nat (w div 1000 mod 60) \<le> 59
           then Some (TimeClip (MakeDate y (m + 1) (nat date) (nat (w div 3600000))
                  (nat (w div 60000 mod 60)) (nat (w div 1000 mod 60)) (nat (w mod 1000))))
           else None)"
    unfolding iso by (rule parse_ISO_fields [OF read_year_year_string [OF y] f])
  also have "\<dots> = Some (TimeClip (MakeDate y (m + 1) (nat date) (nat (w div 3600000))
                  (nat (w div 60000 mod 60)) (nat (w div 1000 mod 60)) (nat (w mod 1000))))"
    by (rule if_P) (rule valid)
  also have "\<dots> = Some (TimeClip t)"
    by (simp only: md)
  also have "\<dots> = Some (Some t)"
    using assms by (simp add: TimeClip_def)
  finally show ?thesis .
qed

subsection \<open>An example\<close>

text \<open>
  The time value 1700000000123 is 14 November 2023, 22:13:20.123 UTC.
\<close>

lemma pad_2_3_4:
  "pad 2 n = [digit (n div 10 mod 10), digit (n mod 10)]"
  "pad 3 n = [digit (n div 10 div 10 mod 10), digit (n div 10 mod 10), digit (n mod 10)]"
  "pad 4 n = [digit (n div 10 div 10 div 10 mod 10), digit (n div 10 div 10 mod 10),
              digit (n div 10 mod 10), digit (n mod 10)]"
proof -
  have "pad (Suc (Suc 0)) n = [digit (n div 10 mod 10), digit (n mod 10)]" by simp
  then show "pad 2 n = [digit (n div 10 mod 10), digit (n mod 10)]"
    by (simp only: numeral_2_eq_2)
  have "pad (Suc (Suc (Suc 0))) n
        = [digit (n div 10 div 10 mod 10), digit (n div 10 mod 10), digit (n mod 10)]" by simp
  then show "pad 3 n = [digit (n div 10 div 10 mod 10), digit (n div 10 mod 10), digit (n mod 10)]"
    by (simp only: numeral_3_eq_3)
  have "pad (Suc (Suc (Suc (Suc 0)))) n
        = [digit (n div 10 div 10 div 10 mod 10), digit (n div 10 div 10 mod 10),
              digit (n div 10 mod 10), digit (n mod 10)]" by simp
  moreover have "(4::nat) = Suc (Suc (Suc (Suc 0)))" by simp
  ultimately show "pad 4 n = [digit (n div 10 div 10 div 10 mod 10), digit (n div 10 div 10 mod 10),
              digit (n div 10 mod 10), digit (n mod 10)]"
    by (simp only:)
qed

lemma YearFromDay_19675: "YearFromDay 19675 = 2023"
  by (simp add: YearFromDay_def year_down.simps year_up.simps DayFromYear_def)

lemma toISOString_example:
  "toISOString 1700000000123 = js ''2023-11-14T22:13:20.123Z''"
proof -
  have d: "Day 1700000000123 = 19675" and w: "TimeWithinDay 1700000000123 = 80000123"
    by (simp_all add: Day_def TimeWithinDay_def msPerDay_def)
  have l: "InLeapYear 2023 = False"
    by (simp add: InLeapYear_def DaysInYear_def)
  have n: "19675 - DayFromYear 2023 = 317"
    by (simp add: DayFromYear_def)
  have m: "MonthFromDayWithinYear False 317 = 10"
    by (simp add: MonthFromDayWithinYear_def month_start_def)
  have s: "month_start False 10 = 304"
    by (simp add: month_start_def)
  have y: "year_string 2023 = [digit 2, digit 0, digit 2, digit 3]"
    by (simp add: year_string_def pad_2_3_4)
  have p: "pad 2 (10 + 1) = [digit 1, digit 1]" "pad 2 (nat (317 - 304 + 1)) = [digit 1, digit 4]"
    "pad 2 (nat (80000123 div 3600000)) = [digit 2, digit 2]"
    "pad 2 (nat (80000123 div 60000 mod 60)) = [digit 1, digit 3]"
    "pad 2 (nat (80000123 div 1000 mod 60)) = [digit 2, digit 0]"
    "pad 3 (nat (80000123 mod 1000)) = [digit 1, digit 2, digit 3]"
    by (simp_all add: pad_2_3_4)
  have "toISOString 1700000000123
        = [digit 2, digit 0, digit 2, digit 3] @ js ''-'' @ [digit 1, digit 1] @ js ''-''
          @ [digit 1, digit 4] @ js ''T'' @ [digit 2, digit 2] @ js '':'' @ [digit 1, digit 3]
          @ js '':'' @ [digit 2, digit 0] @ js ''.'' @ [digit 1, digit 2, digit 3] @ js ''Z''"
    by (simp only: toISOString_def Let_def d w YearFromDay_19675 l n m s y p)
  also have "\<dots> = js ''2023-11-14T22:13:20.123Z''"
    by (simp add: js_def digit_def)
  finally show ?thesis .
qed

section \<open>Properties of the target tracker\<close>

subsection \<open>The saving effect\<close>

lemma targets_save_effect [simp]: "targets (save_effect st) = targets st"
  by (simp add: save_effect_def setItem_def emit_def Let_def)

lemma newTarget_save_effect [simp]: "newTarget (save_effect st) = newTarget st"
  by (simp add: save_effect_def setItem_def emit_def Let_def)

lemma persist_calls_save_effect [simp]:
  "persist_calls (save_effect st) = Suc (persist_calls st)"
  by (simp add: save_effect_def setItem_def emit_def Let_def)

lemma toasts_save_effect:
  "toasts (save_effect st) =
     toasts st @
     (if quota_exceeded (localStorage st)
      then [\<lparr>title = js ''Error'', description = js ''Could not save your targets.'',
              variant = Some destructive\<rparr>]
      else [])"
  by (simp add: save_effect_def setItem_def emit_def Let_def)

subsection \<open>Two example runs\<close>

lemma Number_toString_5_6: "Number_toString 5 = js ''5''" "Number_toString 6 = js ''6''"
  by (simp_all add: Number_toString_def js_def digits.simps digit_def)

lemma targets_run_two_adds:
  "targets (run fresh_tracker [Type (js ''a''), Add m 5, Type (js ''b''), Add n 6]) =
     [\<lparr>id' = Number_toString n, text' = js ''b'', completed = False, createdAt = Some 6\<rparr>,
      \<lparr>id' = Number_toString m, text' = js ''a'', completed = False, createdAt = Some 5\<rparr>]"
proof -
  have ws: "\<not> isWhiteSpace 0x61" "\<not> isWhiteSpace 0x62"
    by (simp_all add: isWhiteSpace_def)
  have t: "trim (js ''a'') = js ''a''" "trim (js ''b'') = js ''b''"
    using ws by (simp_all add: trim_def js_def)
  have n: "js ''a'' \<noteq> []" "js ''b'' \<noteq> []"
    by (simp_all add: js_def)
  show ?thesis
    by (simp add: run_def fresh_tracker_def TargetTracker_init_def addTarget_def emit_def
        Let_def t n)
qed

lemma targets_run_same_clock:
  "targets (run fresh_tracker [Type (js ''a''), Add 5 5, Type (js ''b''), Add 5 6]) =
     [\<lparr>id' = js ''5'', text' = js ''b'', completed = False, createdAt = Some 6\<rparr>,
      \<lparr>id' = js ''5'', text' = js ''a'', completed = False, createdAt = Some 5\<rparr>]"
  by (simp add: targets_run_two_adds Number_toString_5_6)

lemma targets_run_next_clock:
  "targets (run fresh_tracker [Type (js ''a''), Add 5 5, Type (js ''b''), Add 6 6]) =
     [\<lparr>id' = js ''6'', text' = js ''b'', completed = False, createdAt = Some 6\<rparr>,
      \<lparr>id' = js ''5'', text' = js ''a'', completed = False, createdAt = Some 5\<rparr>]"
  by (simp add: targets_run_two_adds Number_toString_5_6)

lemma js_5_6_7: "js ''5'' \<noteq> js ''6''" "js ''6'' \<noteq> js ''5''" "js ''7'' \<noteq> js ''5''"
  "js ''7'' \<noteq> js ''6''" "js ''5'' \<noteq> js ''7''" "js ''6'' \<noteq> js ''7''"
  by (simp_all add: js_def)

subsection \<open>Adding\<close>

text \<open>
  Claim C2. When the text \<open>s\<close> in the input is not empty after trimming, adding raises
  \<open>totalCount\<close> by exactly one, and the collection becomes the new target followed by
  the former collection in its former order; the new target is not completed, its text
  is the trimmed \<open>s\<close>, its creation time is the reading of the clock, and its id is
  the numeral of the reading of \<open>Date.now()\<close>.
\<close>

theorem C2_add_prepends:
  "trim s \<noteq> [] \<Longrightarrow>
     totalCount (addTarget now_id now_created (st\<lparr>newTarget := s\<rparr>)) = totalCount st + 1
   \<and> targets (addTarget now_id now_created (st\<lparr>newTarget := s\<rparr>)) =
       \<lparr>id' = Number_toString now_id, text' = trim s, completed = False,
        createdAt = Some now_created\<rparr> # targets st
   \<and> completed (hd (targets (addTarget now_id now_created (st\<lparr>newTarget := s\<rparr>)))) = False
   \<and> text' (hd (targets (addTarget now_id now_created (st\<lparr>newTarget := s\<rparr>)))) = trim s
   \<and> createdAt (hd (targets (addTarget now_id now_created (st\<lparr>newTarget := s\<rparr>))))
       = Some now_created
   \<and> tl (targets (addTarget now_id now_created (st\<lparr>newTarget := s\<rparr>))) = targets st"
  by (simp add: addTarget_def totalCount_def emit_def Let_def)

theorem C2_add_prepends_witness:
  "trim (js '' run '') \<noteq> []
   \<and> targets (addTarget 1700000000000 1700000000001
                ((TargetTracker_init empty_storage)
                   \<lparr>newTarget := js '' run ''\<rparr>))
       = [\<lparr>id' = js ''1700000000000'', text' = js ''run'', completed = False,
           createdAt = Some 1700000000001\<rparr>]"
proof -
  have ws: "isWhiteSpace 0x20" "\<not> isWhiteSpace 0x72" "\<not> isWhiteSpace 0x6E"
    by (simp_all add: isWhiteSpace_def)
  have t: "trim (js '' run '') = js ''run''"
    using ws by (simp add: trim_def js_def)
  have n: "trim (js '' run '') \<noteq> []"
    by (simp add: t) (simp add: js_def)
  have d: "Number_toString 1700000000000 = js ''1700000000000''"
    by (simp add: Number_toString_def js_def digits.simps digit_def)
  show ?thesis
    using C2_add_prepends [OF n, of 1700000000000 1700000000001
        "TargetTracker_init empty_storage"]
      n t d
    by (simp add: TargetTracker_init_def)
qed

text \<open>
  Claim C3. When the text in the input is empty or consists of white space only, adding
  leaves the collection as it was, issues the one toast "Empty Target" of the
  destructive variant, and changes nothing else: the input keeps its text, nothing is
  written to the storage and the saving effect does not run.
\<close>

theorem C3_add_rejects_blank:
  "\<forall>c\<in>set s. isWhiteSpace c \<Longrightarrow>
     targets (addTarget now_id now_created (st\<lparr>newTarget := s\<rparr>)) = targets st
   \<and> toasts (addTarget now_id now_created (st\<lparr>newTarget := s\<rparr>)) =
       toasts st @ [\<lparr>title = js ''Empty Target'',
                     description = js ''Please enter a target before adding.'',
                     variant = Some destructive\<rparr>]
   \<and> newTarget (addTarget now_id now_created (st\<lparr>newTarget := s\<rparr>)) = s
   \<and> localStorage (addTarget now_id now_created (st\<lparr>newTarget := s\<rparr>)) = localStorage st
   \<and> persist_calls (addTarget now_id now_created (st\<lparr>newTarget := s\<rparr>)) = persist_calls st"
proof -
  assume "\<forall>c\<in>set s. isWhiteSpace c"
  then have "trim s = []"
    by (simp add: trim_eq_Nil_iff)
  then show ?thesis
    by (simp add: addTarget_def emit_def)
qed

theorem C3_add_rejects_blank_witness:
  "list_all isWhiteSpace (js ''   '')
   \<and> targets (addTarget 5 6 ((TargetTracker_init empty_storage)\<lparr>newTarget := js ''   ''\<rparr>)) = []
   \<and> length (toasts (addTarget 5 6
                ((TargetTracker_init empty_storage)\<lparr>newTarget := js ''   ''\<rparr>))) = 1
   \<and> newTarget (addTarget 5 6 ((TargetTracker_init empty_storage)\<lparr>newTarget := js ''   ''\<rparr>))
       = js ''   ''
   \<and> list_all isWhiteSpace (js '''')
   \<and> targets (addTarget 5 6 ((TargetTracker_init empty_storage)\<lparr>newTarget := js ''''\<rparr>)) = []"
proof -
  have w: "\<forall>c\<in>set (js ''   ''). isWhiteSpace c"
    by (simp add: js_def isWhiteSpace_def)
  have e: "\<forall>c\<in>set (js ''''). isWhiteSpace c"
    by (simp add: js_def)
  have "list_all isWhiteSpace (js ''   '')" "list_all isWhiteSpace (js '''')"
    using w e by (simp_all only: list_all_iff)
  then show ?thesis
    using C3_add_rejects_blank [OF w, of 5 6 "TargetTracker_init empty_storage"]
      C3_add_rejects_blank [OF e, of 5 6 "TargetTracker_init empty_storage"]
    by (simp add: TargetTracker_init_def)
qed

subsection \<open>Clearing the completed targets\<close>

text \<open>
  Claim C7. With no completed target, Clear Completed leaves the collection as it was,
  does not run the saving effect (nothing is written to the storage) and issues the one
  toast "Nothing to Clear", which has no destructive variant. With \<open>k > 0\<close> completed
  targets it removes exactly those: the collection becomes the targets that are not
  completed, in their former order, \<open>k\<close> shorter than before and with no completed
  target left; the toast issued reports the count \<open>k\<close>, and the saving effect runs
  once.
\<close>

theorem C7_clearCompleted:
  "(completedCount st = 0 \<longrightarrow>
       targets (clearCompleted st) = targets st
     \<and> persist_calls (clearCompleted st) = persist_calls st
     \<and> localStorage (clearCompleted st) = localStorage st
     \<and> toasts (clearCompleted st) =
         toasts st @ [\<lparr>title = js ''Nothing to Clear'',
                       description = js ''You have no completed targets to clear.'',
                       variant = None\<rparr>])
   \<and> (0 < completedCount st \<longrightarrow>
       targets (clearCompleted st) = filter (\<lambda>t. \<not> completed t) (targets st)
     \<and> completedCount (clearCompleted st) = 0
     \<and> totalCount (clearCompleted st) + completedCount st = totalCount st
     \<and> persist_calls (clearCompleted st) = Suc (persist_calls st)
     \<and> take (Suc (length (toasts st))) (toasts (clearCompleted st)) =
         toasts st @ [\<lparr>title = js ''Completed Targets Cleared'',
                       description =
                         js ''Removed '' @ Number_toString (int (completedCount st))
                         @ js '' completed targets.'',
                       variant = None\<rparr>])"
proof -
  have len: "length (filter (\<lambda>t. \<not> completed t) (targets st))
             + length (filter completed (targets st)) = length (targets st)"
    using sum_length_filter_compl [of completed "targets st"] by simp
  show ?thesis
    using len
    by (simp add: clearCompleted_def completedCount_def totalCount_def emit_def Let_def
        toasts_save_effect filter_empty_conv)
qed

theorem C7_clearCompleted_witness:
  "completedCount ((TargetTracker_init empty_storage)
      \<lparr>targets := [\<lparr>id' = js ''1'', text' = js ''a'', completed = False, createdAt = Some 1\<rparr>]\<rparr>)
     = 0
   \<and> persist_calls (clearCompleted ((TargetTracker_init empty_storage)
      \<lparr>targets := [\<lparr>id' = js ''1'', text' = js ''a'', completed = False, createdAt = Some 1\<rparr>]\<rparr>))
     = 0
   \<and> 0 < completedCount ((TargetTracker_init empty_storage)
      \<lparr>targets := [\<lparr>id' = js ''2'', text' = js ''b'', completed = True, createdAt = Some 2\<rparr>,
                    \<lparr>id' = js ''1'', text' = js ''a'', completed = False, createdAt = Some 1\<rparr>]\<rparr>)
   \<and> targets (clearCompleted ((TargetTracker_init empty_storage)
      \<lparr>targets := [\<lparr>id' = js ''2'', text' = js ''b'', completed = True, createdAt = Some 2\<rparr>,
                    \<lparr>id' = js ''1'', text' = js ''a'', completed = False, createdAt = Some 1\<rparr>]\<rparr>))
     = [\<lparr>id' = js ''1'', text' = js ''a'', completed = False, createdAt = Some 1\<rparr>]
   \<and> persist_calls (clearCompleted ((TargetTracker_init empty_storage)
      \<lparr>targets := [\<lparr>id' = js ''2'', text' = js ''b'', completed = True, createdAt = Some 2\<rparr>,
                    \<lparr>id' = js ''1'', text' = js ''a'', completed = False, createdAt = Some 1\<rparr>]\<rparr>))
     = 1"
proof -
  let ?none = "(TargetTracker_init empty_storage)
      \<lparr>targets := [\<lparr>id' = js ''1'', text' = js ''a'', completed = False, createdAt = Some 1\<rparr>]\<rparr>"
  let ?one = "(TargetTracker_init empty_storage)
      \<lparr>targets := [\<lparr>id' = js ''2'', text' = js ''b'', completed = True, createdAt = Some 2\<rparr>,
                    \<lparr>id' = js ''1'', text' = js ''a'', completed = False, createdAt = Some 1\<rparr>]\<rparr>"
  have z: "completedCount ?none = 0" and p: "0 < completedCount ?one"
    by (simp_all add: completedCount_def)
  have "persist_calls (clearCompleted ?none) = persist_calls ?none"
    using C7_clearCompleted [of ?none] z by blast
  moreover have "targets (clearCompleted ?one) = filter (\<lambda>t. \<not> completed t) (targets ?one)"
    and "persist_calls (clearCompleted ?one) = Suc (persist_calls ?one)"
    using C7_clearCompleted [of ?one] p by blast+
  ultimately show ?thesis
    using z p by (simp add: TargetTracker_init_def)
qed

subsection \<open>Toggling\<close>

lemma unique_index_of_id:
  assumes "distinct (map f xs)" and "i \<in> f ` set xs"
  shows "\<exists>!k. k < length xs \<and> f (xs ! k) = i"
proof -
  from assms(2) obtain k where k: "k < length xs" "f (xs ! k) = i"
    by (auto simp: in_set_conv_nth)
  have "j = k" if "j < length xs" "f (xs ! j) = i" for j
  proof (rule ccontr)
    assume "j \<noteq> k"
    then have "map f xs ! j \<noteq> map f xs ! k"
      using assms(1) that(1) k(1) by (simp add: distinct_conv_nth)
    then show False using that k by simp
  qed
  with k show ?thesis by blast
qed

text \<open>
  Claim C8, amended. Toggling keeps the length and the order of the
  collection and every id, text and creation time; it flips \<open>completed\<close> of every
  target whose id is the given one and of no other. So a toggle on an absent id leaves
  the collection as it was, and when the ids of the collection are pairwise different
  and the id is present, \<open>completed\<close> changes at exactly one position.
\<close>

theorem C8_toggle_frame:
  "length (targets (toggleTarget i st)) = length (targets st)
   \<and> (\<forall>k<length (targets st).
         id' (targets (toggleTarget i st) ! k) = id' (targets st ! k)
       \<and> text' (targets (toggleTarget i st) ! k) = text' (targets st ! k)
       \<and> createdAt (targets (toggleTarget i st) ! k) = createdAt (targets st ! k)
       \<and> completed (targets (toggleTarget i st) ! k) =
           (if id' (targets st ! k) = i then \<not> completed (targets st ! k)
            else completed (targets st ! k)))
   \<and> (i \<notin> id' ` set (targets st) \<longrightarrow> targets (toggleTarget i st) = targets st)
   \<and> (distinct (map id' (targets st)) \<and> i \<in> id' ` set (targets st) \<longrightarrow>
        (\<exists>!k. k < length (targets st)
              \<and> completed (targets (toggleTarget i st) ! k) \<noteq> completed (targets st ! k)))"
proof -
  let ?f = "\<lambda>target. if id' target = i then target\<lparr>completed := \<not> completed target\<rparr> else target"
  have t: "targets (toggleTarget i st) = map ?f (targets st)"
    by (simp add: toggleTarget_def)
  have absent: "i \<notin> id' ` set (targets st) \<longrightarrow> map ?f (targets st) = targets st"
    by (auto intro!: map_idI)
  have flip: "completed (map ?f (targets st) ! k) \<noteq> completed (targets st ! k)
              \<longleftrightarrow> id' (targets st ! k) = i" if "k < length (targets st)" for k
    using that by simp
  have one: "\<exists>!k. k < length (targets st)
                \<and> completed (map ?f (targets st) ! k) \<noteq> completed (targets st ! k)"
    if "distinct (map id' (targets st))" "i \<in> id' ` set (targets st)"
  proof -
    from unique_index_of_id [OF that]
    obtain k where k: "k < length (targets st)" "id' (targets st ! k) = i"
      and u: "\<And>j. j < length (targets st) \<Longrightarrow> id' (targets st ! j) = i \<Longrightarrow> j = k"
      by blast
    show ?thesis
    proof (rule ex1I [of _ k])
      show "k < length (targets st)
            \<and> completed (map ?f (targets st) ! k) \<noteq> completed (targets st ! k)"
        using k flip by blast
    next
      fix j
      assume "j < length (targets st)
              \<and> completed (map ?f (targets st) ! j) \<noteq> completed (targets st ! j)"
      then show "j = k" using flip u by blast
    qed
  qed
  show ?thesis
    unfolding t using absent one by simp
qed

theorem C8_toggle_frame_witness:
  "distinct (map id' (targets (run fresh_tracker
       [Type (js ''a''), Add 5 5, Type (js ''b''), Add 6 6])))
   \<and> js ''6'' \<in> id' ` set (targets (run fresh_tracker
       [Type (js ''a''), Add 5 5, Type (js ''b''), Add 6 6]))
   \<and> (\<exists>!k. k < length (targets (run fresh_tracker
                 [Type (js ''a''), Add 5 5, Type (js ''b''), Add 6 6]))
           \<and> completed (targets (toggleTarget (js ''6'') (run fresh_tracker
                 [Type (js ''a''), Add 5 5, Type (js ''b''), Add 6 6])) ! k)
             \<noteq> completed (targets (run fresh_tracker
                 [Type (js ''a''), Add 5 5, Type (js ''b''), Add 6 6]) ! k))
   \<and> 0 < length (targets (run fresh_tracker
       [Type (js ''a''), Add 5 5, Type (js ''b''), Add 6 6]))
   \<and> completed (targets (toggleTarget (js ''6'') (run fresh_tracker
       [Type (js ''a''), Add 5 5, Type (js ''b''), Add 6 6])) ! 0) = True
   \<and> js ''7'' \<notin> id' ` set (targets (run fresh_tracker
       [Type (js ''a''), Add 5 5, Type (js ''b''), Add 6 6]))
   \<and> targets (toggleTarget (js ''7'') (run fresh_tracker
       [Type (js ''a''), Add 5 5, Type (js ''b''), Add 6 6]))
       = targets (run fresh_tracker [Type (js ''a''), Add 5 5, Type (js ''b''), Add 6 6])"
proof -
  let ?st = "run fresh_tracker [Type (js ''a''), Add 5 5, Type (js ''b''), Add 6 6]"
  have d: "distinct (map id' (targets ?st))"
    by (simp add: targets_run_next_clock js_5_6_7)
  have p: "js ''6'' \<in> id' ` set (targets ?st)"
    by (simp add: targets_run_next_clock)
  have a: "js ''7'' \<notin> id' ` set (targets ?st)"
    by (simp add: targets_run_next_clock js_5_6_7)
  have l: "0 < length (targets ?st)"
    by (simp add: targets_run_next_clock)
  have i: "id' (targets ?st ! 0) = js ''6''" "completed (targets ?st ! 0) = False"
    by (simp_all add: targets_run_next_clock)
  note six = C8_toggle_frame [of "js ''6''" ?st]
  note seven = C8_toggle_frame [of "js ''7''" ?st]
  have "completed (targets (toggleTarget (js ''6'') ?st) ! 0) = True"
    using six l i by simp
  moreover have "\<exists>!k. k < length (targets ?st)
        \<and> completed (targets (toggleTarget (js ''6'') ?st) ! k) \<noteq> completed (targets ?st ! k)"
    using six d p by blast
  moreover have "targets (toggleTarget (js ''7'') ?st) = targets ?st"
    using seven a by blast
  ultimately show ?thesis
    using d p a l by blast
qed

text \<open>
  Claim C8 as stated fails on a collection in which two targets have the same id: one
  toggle flips both.
\<close>

theorem C8_duplicate_id_counterexample:
  "map completed (targets (run fresh_tracker
       [Type (js ''a''), Add 5 5, Type (js ''b''), Add 5 6])) = [False, False]
   \<and> map completed (targets (toggleTarget (js ''5'') (run fresh_tracker
       [Type (js ''a''), Add 5 5, Type (js ''b''), Add 5 6]))) = [True, True]"
  by (simp add: targets_run_same_clock toggleTarget_def)

subsection \<open>Deleting\<close>

lemma filter_other_ids_remove1:
  "distinct (map f xs) \<Longrightarrow> t \<in> set xs \<Longrightarrow> filter (\<lambda>x. f x \<noteq> f t) xs = remove1 t xs"
proof (induction xs)
  case Nil
  then show ?case by simp
next
  case (Cons x xs)
  show ?case
  proof (cases "x = t")
    case True
    have "\<forall>y\<in>set xs. f y \<noteq> f t"
      using Cons.prems(1) True by (force simp: image_iff)
    then have "filter (\<lambda>x. f x \<noteq> f t) xs = xs"
      by (simp add: filter_id_conv)
    with True show ?thesis by simp
  next
    case False
    then have "t \<in> set xs" using Cons.prems(2) by simp
    moreover have "f x \<noteq> f t"
      using Cons.prems(1) \<open>t \<in> set xs\<close> by (force simp: image_iff)
    ultimately show ?thesis
      using Cons.IH Cons.prems(1) False by simp
  qed
qed

text \<open>
  Claim C6, amended. Deleting removes every target whose id is the given one
  and keeps the others in their former order. When a target has the id, the toast
  issued names the text of the first such target. When no target has the id, the
  collection is as it was. When the ids of the collection are pairwise different and a
  target has the id, exactly that one target is removed.
\<close>

theorem C6_delete_removes_matching:
  "targets (deleteTarget i st) = filter (\<lambda>t. id' t \<noteq> i) (targets st)
   \<and> (i \<notin> id' ` set (targets st) \<longrightarrow> targets (deleteTarget i st) = targets st)
   \<and> (\<forall>t. find (\<lambda>t. id' t = i) (targets st) = Some t \<longrightarrow>
         take (Suc (length (toasts st))) (toasts (deleteTarget i st)) =
           toasts st @ [\<lparr>title = js ''Target Removed'',
                         description = [0x22] @ text' t @ [0x22] @ js '' has been deleted.'',
                         variant = Some destructive\<rparr>])
   \<and> (distinct (map id' (targets st)) \<longrightarrow>
        (\<forall>t\<in>set (targets st). id' t = i \<longrightarrow>
            find (\<lambda>t. id' t = i) (targets st) = Some t
          \<and> targets (deleteTarget i st) = remove1 t (targets st)
          \<and> length (targets (deleteTarget i st)) + 1 = length (targets st)))"
proof -
  have t: "targets (deleteTarget i st) = filter (\<lambda>t. id' t \<noteq> i) (targets st)"
    by (simp add: deleteTarget_def emit_def Let_def)
  have absent: "i \<notin> id' ` set (targets st) \<longrightarrow> filter (\<lambda>t. id' t \<noteq> i) (targets st) = targets st"
    by (auto simp: filter_id_conv)
  have toast: "take (Suc (length (toasts st))) (toasts (deleteTarget i st)) =
           toasts st @ [\<lparr>title = js ''Target Removed'',
                         description = [0x22] @ text' x @ [0x22] @ js '' has been deleted.'',
                         variant = Some destructive\<rparr>]"
    if "find (\<lambda>t. id' t = i) (targets st) = Some x" for x
    using that by (simp add: deleteTarget_def emit_def Let_def toasts_save_effect)
  have one: "find (\<lambda>t. id' t = i) (targets st) = Some x
             \<and> filter (\<lambda>t. id' t \<noteq> i) (targets st) = remove1 x (targets st)
             \<and> length (filter (\<lambda>t. id' t \<noteq> i) (targets st)) + 1 = length (targets st)"
    if d: "distinct (map id' (targets st))" and x: "x \<in> set (targets st)" "id' x = i" for x
  proof -
    have r: "filter (\<lambda>t. id' t \<noteq> i) (targets st) = remove1 x (targets st)"
      using filter_other_ids_remove1 [OF d x(1)] x(2) by simp
    obtain y where y: "find (\<lambda>t. id' t = i) (targets st) = Some y"
      using x by (cases "find (\<lambda>t. id' t = i) (targets st)") (auto simp: find_None_iff)
    then have "y \<in> set (targets st)" "id' y = i"
      by (auto simp: find_Some_iff)
    then have "y = x"
      using d x by (auto simp: distinct_map dest: inj_onD)
    moreover have "length (remove1 x (targets st)) + 1 = length (targets st)"
      using x(1) by (simp add: length_remove1) (cases "targets st", auto)
    ultimately show ?thesis using r y by simp
  qed
  show ?thesis
    unfolding t using absent toast one by blast
qed

theorem C6_delete_removes_matching_witness:
  "distinct (map id' (targets (run fresh_tracker
       [Type (js ''a''), Add 5 5, Type (js ''b''), Add 6 6])))
   \<and> \<lparr>id' = js ''5'', text' = js ''a'', completed = False, createdAt = Some 5\<rparr>
       \<in> set (targets (run fresh_tracker [Type (js ''a''), Add 5 5, Type (js ''b''), Add 6 6]))
   \<and> find (\<lambda>t. id' t = js ''5'')
         (targets (run fresh_tracker [Type (js ''a''), Add 5 5, Type (js ''b''), Add 6 6]))
       = Some \<lparr>id' = js ''5'', text' = js ''a'', completed = False, createdAt = Some 5\<rparr>
   \<and> targets (deleteTarget (js ''5'') (run fresh_tracker
       [Type (js ''a''), Add 5 5, Type (js ''b''), Add 6 6]))
       = [\<lparr>id' = js ''6'', text' = js ''b'', completed = False, createdAt = Some 6\<rparr>]
   \<and> take (Suc (length (toasts (run fresh_tracker
             [Type (js ''a''), Add 5 5, Type (js ''b''), Add 6 6]))))
         (toasts (deleteTarget (js ''5'') (run fresh_tracker
             [Type (js ''a''), Add 5 5, Type (js ''b''), Add 6 6])))
       = toasts (run fresh_tracker [Type (js ''a''), Add 5 5, Type (js ''b''), Add 6 6])
         @ [\<lparr>title = js ''Target Removed'',
              description = [0x22] @ js ''a'' @ [0x22] @ js '' has been deleted.'',
              variant = Some destructive\<rparr>]
   \<and> js ''7'' \<notin> id' ` set (targets (run fresh_tracker
       [Type (js ''a''), Add 5 5, Type (js ''b''), Add 6 6]))
   \<and> targets (deleteTarget (js ''7'') (run fresh_tracker
       [Type (js ''a''), Add 5 5, Type (js ''b''), Add 6 6]))
       = targets (run fresh_tracker [Type (js ''a''), Add 5 5, Type (js ''b''), Add 6 6])"
proof -
  let ?st = "run fresh_tracker [Type (js ''a''), Add 5 5, Type (js ''b''), Add 6 6]"
  let ?a = "\<lparr>id' = js ''5'', text' = js ''a'', completed = False, createdAt = Some 5\<rparr>"
  have d: "distinct (map id' (targets ?st))"
    by (simp add: targets_run_next_clock js_5_6_7)
  have m: "?a \<in> set (targets ?st)"
    by (simp add: targets_run_next_clock)
  have a: "js ''7'' \<notin> id' ` set (targets ?st)"
    by (simp add: targets_run_next_clock js_5_6_7)
  have r: "remove1 ?a (targets ?st)
           = [\<lparr>id' = js ''6'', text' = js ''b'', completed = False, createdAt = Some 6\<rparr>]"
    by (simp add: targets_run_next_clock js_5_6_7)
  note five = C6_delete_removes_matching [of "js ''5''" ?st]
  note seven = C6_delete_removes_matching [of "js ''7''" ?st]
  have f: "find (\<lambda>t. id' t = js ''5'') (targets ?st) = Some ?a"
    and "targets (deleteTarget (js ''5'') ?st) = remove1 ?a (targets ?st)"
    using five d m by auto
  moreover have "take (Suc (length (toasts ?st))) (toasts (deleteTarget (js ''5'') ?st))
       = toasts ?st @ [\<lparr>title = js ''Target Removed'',
              description = [0x22] @ js ''a'' @ [0x22] @ js '' has been deleted.'',
              variant = Some destructive\<rparr>]"
    using five f by auto
  moreover have "targets (deleteTarget (js ''7'') ?st) = targets ?st"
    using seven a by blast
  ultimately show ?thesis
    using d m a r by simp
qed

text \<open>
  Claim C6 as stated fails twice. On a collection in which two targets have the same
  id, one delete removes both. And a delete with an id that no target has is not
  without effect: it issues the toast "Target Removed", with the word
  \<open>undefined\<close> in the place of a text.
\<close>

theorem C6_delete_counterexample:
  "length (targets (run fresh_tracker
       [Type (js ''a''), Add 5 5, Type (js ''b''), Add 5 6])) = 2
   \<and> targets (deleteTarget (js ''5'') (run fresh_tracker
       [Type (js ''a''), Add 5 5, Type (js ''b''), Add 5 6])) = []
   \<and> toasts (deleteTarget (js ''7'') (TargetTracker_init empty_storage))
       = [\<lparr>title = js ''Target Removed'',
           description = [0x22] @ js ''undefined'' @ [0x22] @ js '' has been deleted.'',
           variant = Some destructive\<rparr>]"
  by (simp add: targets_run_same_clock deleteTarget_def emit_def toasts_save_effect
      TargetTracker_init_def empty_storage_def)

subsection \<open>Identifiers\<close>

lemma ids_filter:
  "distinct (map id' ts) \<Longrightarrow> distinct (map id' (filter P ts))"
  by (simp add: distinct_map_filter)

lemma step_Add_accepted:
  "trim (newTarget st) \<noteq> [] \<Longrightarrow>
     map id' (targets (step st (Add n c))) = Number_toString n # map id' (targets st)
   \<and> newTarget (step st (Add n c)) = []"
  by (simp add: addTarget_def emit_def Let_def)

lemma step_Add_rejected:
  "trim (newTarget st) = [] \<Longrightarrow>
     targets (step st (Add n c)) = targets st \<and> newTarget (step st (Add n c)) = newTarget st"
  by (simp add: addTarget_def emit_def)

lemma step_Toggle:
  "map id' (targets (step st (Toggle i))) = map id' (targets st)
   \<and> newTarget (step st (Toggle i)) = newTarget st"
  by (simp add: toggleTarget_def comp_def if_distrib [of id'] cong: if_cong)

lemma step_Delete:
  "targets (step st (Delete i)) = filter (\<lambda>t. id' t \<noteq> i) (targets st)
   \<and> newTarget (step st (Delete i)) = newTarget st"
  by (simp add: deleteTarget_def emit_def Let_def)

lemma step_ClearCompleted:
  "(targets (step st ClearCompleted) = targets st
    \<or> targets (step st ClearCompleted) = filter (\<lambda>t. \<not> completed t) (targets st))
   \<and> newTarget (step st ClearCompleted) = newTarget st"
  by (simp add: clearCompleted_def emit_def Let_def)

lemma ids_of_steps:
  "distinct (map id' (targets st0)) \<Longrightarrow>
   distinct (id_clocks (newTarget st0) evs) \<Longrightarrow>
   \<forall>n\<in>set (id_clocks (newTarget st0) evs). Number_toString n \<notin> id' ` set (targets st0) \<Longrightarrow>
   distinct (map id' (targets (foldl step st0 evs)))"
proof (induction evs arbitrary: st0)
  case Nil
  then show ?case by simp
next
  case (Cons ev evs)
  have "distinct (map id' (targets (step st0 ev)))
        \<and> distinct (id_clocks (newTarget (step st0 ev)) evs)
        \<and> (\<forall>n\<in>set (id_clocks (newTarget (step st0 ev)) evs).
              Number_toString n \<notin> id' ` set (targets (step st0 ev)))"
  proof (cases ev)
    case (Type s)
    with Cons.prems show ?thesis by simp
  next
    case (Add n c)
    show ?thesis
    proof (cases "trim (newTarget st0) = []")
      case True
      with Cons.prems Add step_Add_rejected [OF True, of n c] show ?thesis
        by simp
    next
      case False
      note a = step_Add_accepted [OF False, of n c]
      from Cons.prems(2) Add False have rest: "distinct (id_clocks [] evs)"
        and fresh: "n \<notin> set (id_clocks [] evs)"
        by simp_all
      from Cons.prems(3) Add False
      have new: "Number_toString n \<notin> id' ` set (targets st0)"
        and old: "\<forall>m\<in>set (id_clocks [] evs). Number_toString m \<notin> id' ` set (targets st0)"
        by simp_all
      have other: "\<forall>m\<in>set (id_clocks [] evs). Number_toString m \<noteq> Number_toString n"
        using fresh by (auto dest: Number_toString_inj)
      have ids: "id' ` set (targets (step st0 (Add n c)))
                 = insert (Number_toString n) (id' ` set (targets st0))"
        using arg_cong [OF conjunct1 [OF a], of set] by simp
      have "distinct (map id' (targets (step st0 (Add n c))))"
        using a new Cons.prems(1) by simp
      moreover have "distinct (id_clocks (newTarget (step st0 (Add n c))) evs)"
        using a rest by simp
      moreover have "\<forall>m\<in>set (id_clocks (newTarget (step st0 (Add n c))) evs).
                       Number_toString m \<notin> id' ` set (targets (step st0 (Add n c)))"
        using conjunct2 [OF a] old other ids by auto
      ultimately show ?thesis using Add by simp
    qed
  next
    case (Toggle i)
    note t = step_Toggle [of st0 i]
    have "id' ` set (targets (step st0 (Toggle i))) = id' ` set (targets st0)"
      using arg_cong [OF conjunct1 [OF t], of set] by simp
    with Cons.prems Toggle t show ?thesis by simp
  next
    case (Delete i)
    note d = step_Delete [of st0 i]
    have "id' ` set (targets (step st0 (Delete i))) \<subseteq> id' ` set (targets st0)"
      using d by auto
    moreover have "distinct (map id' (targets (step st0 (Delete i))))"
      using d ids_filter [OF Cons.prems(1)] by simp
    ultimately show ?thesis
      using Cons.prems(2,3) Delete d by auto
  next
    case ClearCompleted
    note c = step_ClearCompleted [of st0]
    have "id' ` set (targets (step st0 ClearCompleted)) \<subseteq> id' ` set (targets st0)"
      using c by auto
    moreover have "distinct (map id' (targets (step st0 ClearCompleted)))"
      using c ids_filter [OF Cons.prems(1), of "\<lambda>t. \<not> completed t"] Cons.prems(1) by auto
    ultimately show ?thesis
      using Cons.prems(2,3) ClearCompleted c by auto
  qed
  then have "distinct (map id' (targets (foldl step (step st0 ev) evs)))"
    using Cons.IH [of "step st0 ev"] by blast
  then show ?case by simp
qed

text \<open>
  Claim C5 as stated fails: two targets added at the same reading of \<open>Date.now()\<close>
  have the same id.
\<close>

theorem C5_same_millisecond_counterexample:
  "\<not> distinct (map id' (targets (run fresh_tracker
        [Type (js ''a''), Add 5 5, Type (js ''b''), Add 5 6])))"
  by (simp add: targets_run_same_clock)

text \<open>
  Claim C5, amended. Start from a state whose collection has pairwise different ids,
  the freshly mounted component in particular, and let events of typing, adding,
  toggling, deleting and clearing follow. If the readings of \<open>Date.now()\<close> taken by
  the adds that pass the guard are pairwise different, and the numeral of none of them
  is an id of the starting collection, then the ids of the collection reached are
  pairwise different.
\<close>

theorem C5_ids_unique_if_clock_advances:
  "distinct (map id' (targets st0)) \<Longrightarrow>
   distinct (id_clocks (newTarget st0) evs) \<Longrightarrow>
   \<forall>n\<in>set (id_clocks (newTarget st0) evs). Number_toString n \<notin> id' ` set (targets st0) \<Longrightarrow>
     distinct (map id' (targets (run st0 evs)))"
  using ids_of_steps [of st0 evs] by (simp add: run_def)

theorem C5_ids_unique_if_clock_advances_witness:
  "distinct (map id' (targets fresh_tracker))
   \<and> id_clocks (newTarget fresh_tracker)
        [Type (js ''a''), Add 5 5, Add 5 5, Toggle (js ''5''), Type (js ''b''), Add 6 6] = [5, 6]
   \<and> list_all (\<lambda>n. Number_toString n \<notin> id' ` set (targets fresh_tracker))
        (id_clocks (newTarget fresh_tracker)
           [Type (js ''a''), Add 5 5, Add 5 5, Toggle (js ''5''), Type (js ''b''), Add 6 6])
   \<and> distinct (map id' (targets (run fresh_tracker
        [Type (js ''a''), Add 5 5, Add 5 5, Toggle (js ''5''), Type (js ''b''), Add 6 6])))"
proof -
  let ?evs = "[Type (js ''a''), Add 5 5, Add 5 5, Toggle (js ''5''), Type (js ''b''), Add 6 6]"
  have ws: "\<not> isWhiteSpace 0x61" "\<not> isWhiteSpace 0x62"
    by (simp_all add: isWhiteSpace_def)
  have t: "trim (js ''a'') \<noteq> []" "trim (js ''b'') \<noteq> []" "trim [] = []"
    using ws by (simp_all add: trim_def js_def)
  have f: "targets fresh_tracker = []" "newTarget fresh_tracker = []"
    by (simp_all add: fresh_tracker_def TargetTracker_init_def)
  have c: "id_clocks (newTarget fresh_tracker) ?evs = [5, 6]"
    by (simp add: f t)
  have s: "distinct (map id' (targets fresh_tracker))"
    by (simp add: f)
  have d: "distinct (id_clocks (newTarget fresh_tracker) ?evs)"
    by (simp only: c) simp
  have o: "\<forall>n\<in>set (id_clocks (newTarget fresh_tracker) ?evs).
             Number_toString n \<notin> id' ` set (targets fresh_tracker)"
    by (simp add: f)
  have "list_all (\<lambda>n. Number_toString n \<notin> id' ` set (targets fresh_tracker))
          (id_clocks (newTarget fresh_tracker) ?evs)"
    using o by (simp only: list_all_iff)
  moreover have "distinct (map id' (targets (run fresh_tracker ?evs)))"
    using C5_ids_unique_if_clock_advances [OF s d o] .
  ultimately show ?thesis
    using s c by blast
qed

section \<open>Properties of loading\<close>

lemma property_names_differ:
  "js ''id'' \<noteq> js ''createdAt''" "js ''text'' \<noteq> js ''createdAt''"
  "js ''completed'' \<noteq> js ''createdAt''" "js ''id'' \<noteq> js ''text''"
  "js ''id'' \<noteq> js ''completed''" "js ''text'' \<noteq> js ''completed''"
  "js ''text'' \<noteq> js ''id''" "js ''completed'' \<noteq> js ''id''"
  "js ''completed'' \<noteq> js ''text''" "js ''createdAt'' \<noteq> js ''id''"
  "js ''createdAt'' \<noteq> js ''text''" "js ''createdAt'' \<noteq> js ''completed''"
  by (simp_all add: js_def)

lemma new_Date_of_toJSON:
  "valid_Date d \<Longrightarrow> new_Date impl (Some (Date_toJSON d)) = Inr d"
  by (cases d)
     (simp_all add: valid_Date_def Date_toJSON_def new_Date_def Date_parse_def
        parse_ISO_toISOString)

lemma rehydrate_Target_toJSON:
  assumes "valid_Date (createdAt t)"
  shows "rehydrate impl (Target_toJSON t) = Inr (object_of_Target t)"
proof -
  have g: "get_createdAt (Target_toJSON t) = Inr (Some (Date_toJSON (createdAt t)))"
    by (simp add: get_createdAt_def Target_toJSON_def property_names_differ)
  have o: "set_property (map (\<lambda>(k, v). (k, Json v)) (own_properties (Target_toJSON t)))
             (js ''createdAt'') (DateObject (createdAt t)) = object_of_Target t"
    by (simp add: own_properties_def Target_toJSON_def object_of_Target_def
        property_names_differ)
  show ?thesis
    by (simp only: rehydrate_def g sum.case new_Date_of_toJSON [OF assms] o)
qed

lemma map_throwing_rehydrate:
  "\<forall>t\<in>set ts. valid_Date (createdAt t) \<Longrightarrow>
   map_throwing (rehydrate impl) (map Target_toJSON ts) = Inr (map object_of_Target ts)"
  by (induction ts) (simp_all add: rehydrate_Target_toJSON)

lemma Target_of_object_of_Target: "Target_of_object (object_of_Target t) = Some t"
  by (simp add: Target_of_object_def object_of_Target_def property_names_differ)

text \<open>
  Claim C1. Let the collection hold valid dates and let the storage accept the write.
  Then the saving effect stores the JSON text of the collection, and loading from that
  storage yields, with no toast, exactly the objects of the collection: the same ids,
  texts and completed flags, and each creation time, written as an ISO string, read
  back as the same time value. Read at the interface \<open>Target\<close>, the loaded
  collection is the one that was saved.
\<close>

theorem C1_persist_load_roundtrip:
  assumes "\<forall>t\<in>set (targets st). valid_Date (createdAt t)"
    and "\<not> quota_exceeded (localStorage st)"
  shows "getItem (localStorage (save_effect st)) = Some (JSON_stringify (targets st))
    \<and> load impl (localStorage (save_effect st)) =
        \<lparr>loaded = map object_of_Target (targets st), load_toasts = [], load_console = []\<rparr>
    \<and> map Target_of_object (loaded (load impl (localStorage (save_effect st))))
        = map Some (targets st)"
proof -
  have s: "getItem (localStorage (save_effect st)) = Some (JSON_stringify (targets st))"
    using assms(2) by (simp add: save_effect_def setItem_def getItem_def Let_def)
  have l: "load impl (localStorage (save_effect st)) =
        \<lparr>loaded = map object_of_Target (targets st), load_toasts = [], load_console = []\<rparr>"
    by (simp add: load_def s JSON_stringify_def JSON_parse_def map_parsed_def
        map_throwing_rehydrate [OF assms(1)])
  have "map Target_of_object (map object_of_Target (targets st)) = map Some (targets st)"
    by (simp add: Target_of_object_of_Target comp_def)
  with s l show ?thesis by simp
qed

theorem C1_persist_load_roundtrip_witness:
  "list_all (\<lambda>t. valid_Date (createdAt t))
     (targets ((TargetTracker_init empty_storage)
        \<lparr>targets := [\<lparr>id' = js ''1700000000123'', text' = js ''run'', completed = True,
                      createdAt = Some 1700000000123\<rparr>]\<rparr>))
   \<and> \<not> quota_exceeded (localStorage ((TargetTracker_init empty_storage)
        \<lparr>targets := [\<lparr>id' = js ''1700000000123'', text' = js ''run'', completed = True,
                      createdAt = Some 1700000000123\<rparr>]\<rparr>))
   \<and> map Target_of_object (loaded (load (\<lambda>v. None) (localStorage (save_effect
        ((TargetTracker_init empty_storage)
           \<lparr>targets := [\<lparr>id' = js ''1700000000123'', text' = js ''run'', completed = True,
                         createdAt = Some 1700000000123\<rparr>]\<rparr>)))))
       = [Some \<lparr>id' = js ''1700000000123'', text' = js ''run'', completed = True,
                createdAt = Some 1700000000123\<rparr>]"
proof -
  let ?st = "(TargetTracker_init empty_storage)
        \<lparr>targets := [\<lparr>id' = js ''1700000000123'', text' = js ''run'', completed = True,
                      createdAt = Some 1700000000123\<rparr>]\<rparr>"
  have v: "\<forall>t\<in>set (targets ?st). valid_Date (createdAt t)"
    by (simp add: valid_Date_def)
  have q: "\<not> quota_exceeded (localStorage ?st)"
    by (simp add: TargetTracker_init_def empty_storage_def)
  have a: "list_all (\<lambda>t. valid_Date (createdAt t)) (targets ?st)"
    using v by (simp only: list_all_iff)
  have "map Target_of_object (loaded (load (\<lambda>v. None) (localStorage (save_effect ?st))))
        = map Some (targets ?st)"
    using C1_persist_load_roundtrip [OF v q, of "\<lambda>v. None"] by blast
  also have "\<dots> = [Some \<lparr>id' = js ''1700000000123'', text' = js ''run'', completed = True,
                createdAt = Some 1700000000123\<rparr>]"
    by simp
  finally show ?thesis
    using a q by blast
qed

text \<open>
  The validity of the dates is needed: an invalid date is written as \<open>null\<close>, which
  \<open>new Date\<close> reads as the epoch.
\<close>

lemma invalid_date_read_as_epoch:
  "rehydrate impl (Target_toJSON (t\<lparr>createdAt := None\<rparr>))
   = Inr (object_of_Target (t\<lparr>createdAt := Some 0\<rparr>))"
  by (simp add: rehydrate_def get_createdAt_def Target_toJSON_def Date_toJSON_def
      own_properties_def new_Date_def object_of_Target_def property_names_differ)

text \<open>
  The component mounted on a storage with nothing saved: the loading effect does
  nothing and the saving effect writes the empty collection.
\<close>

lemma mount_empty_storage: "mount impl empty_storage = Some fresh_tracker"
  by (simp add: mount_def load_def setTargets_called_def getItem_def empty_storage_def
      fresh_tracker_def TargetTracker_init_def Let_def)

text \<open>
  The ids already saved count for the uniqueness of ids: the component mounted on a
  saved target of id \<open>5\<close> gives the same id to a target added when \<open>Date.now()\<close>
  reads 5.
\<close>

lemma mount_saved_id_clash:
  "\<exists>st. mount impl
          \<lparr>dailyTargets = Some (Json_text (JArr [JObj
             [(js ''id'', JStr (js ''5'')), (js ''text'', JStr (js ''a'')),
              (js ''completed'', JBool False), (js ''createdAt'', JNum (Dyadic 5 0))]])),
           quota_exceeded = False\<rparr> = Some st
        \<and> map id' (targets st) = [js ''5'']
        \<and> map id' (targets (run st [Type (js ''b''), Add 5 6])) = [js ''5'', js ''5'']"
proof -
  let ?sto = "\<lparr>dailyTargets = Some (Json_text (JArr [JObj
             [(js ''id'', JStr (js ''5'')), (js ''text'', JStr (js ''a'')),
              (js ''completed'', JBool False), (js ''createdAt'', JNum (Dyadic 5 0))]])),
           quota_exceeded = False\<rparr>"
  let ?t = "\<lparr>id' = js ''5'', text' = js ''a'', completed = False, createdAt = Some 5\<rparr>"
  have l: "load impl ?sto = \<lparr>loaded = [object_of_Target ?t], load_toasts = [], load_console = []\<rparr>"
    by (simp add: load_def getItem_def JSON_parse_def map_parsed_def rehydrate_def
      get_createdAt_def own_properties_def new_Date_def property_names_differ
      object_of_Target_def Date_of_number_def TimeClip_def)
  have c: "setTargets_called impl ?sto"
    by (simp add: setTargets_called_def getItem_def JSON_parse_def map_parsed_def rehydrate_def
      get_createdAt_def own_properties_def new_Date_def property_names_differ)
  have o: "Targets_of_objects [object_of_Target ?t] = Some [?t]"
    by (simp add: Targets_of_objects_def Target_of_object_of_Target)
  have m: "mount impl ?sto = Some (save_effect ((save_effect ((TargetTracker_init ?sto)
             \<lparr>toasts := [], console := []\<rparr>))\<lparr>targets := [?t]\<rparr>))"
    by (simp add: mount_def l c o Let_def)
  have ws: "\<not> isWhiteSpace 0x62"
    by (simp add: isWhiteSpace_def)
  have t: "trim (js ''b'') \<noteq> []"
    using ws by (simp add: trim_def js_def)
  show ?thesis
    by (simp add: m run_def addTarget_def emit_def Let_def t Number_toString_5_6 TargetTracker_init_def)
qed

text \<open>Where the callback of the loading effect throws, and what it returns.\<close>

lemma new_Date_eq_Inl:
  "new_Date impl v = Inl e \<longleftrightarrow> e = TypeError \<and> (\<exists>c. v = Some c \<and> ToPrimitive_throws c)"
proof (cases v)
  case None
  then show ?thesis by (simp add: new_Date_def)
next
  case (Some c)
  then show ?thesis by (cases c) (auto simp: new_Date_def)
qed

lemma rehydrate_eq_Inl:
  "rehydrate impl t = Inl e \<longleftrightarrow>
     e = TypeError
     \<and> (t = JNull
        \<or> (\<exists>ps c. t = JObj ps \<and> map_of ps (js ''createdAt'') = Some c \<and> ToPrimitive_throws c))"
proof -
  have "rehydrate impl t = Inl e \<longleftrightarrow>
          get_createdAt t = Inl e \<or> (\<exists>c. get_createdAt t = Inr c \<and> new_Date impl c = Inl e)"
    by (auto simp: rehydrate_def split: sum.splits)
  then show ?thesis
    by (cases t) (auto simp: get_createdAt_def new_Date_eq_Inl)
qed

lemma map_of_set_property: "map_of (set_property ps k v) = (map_of ps)(k \<mapsto> v)"
  by (induction ps k v rule: set_property.induct) auto

lemma rehydrate_eq_Inr:
  assumes "rehydrate impl t = Inr ob"
  shows "\<exists>c d. get_createdAt t = Inr c \<and> new_Date impl c = Inr d
           \<and> map_of ob (js ''createdAt'') = Some (DateObject d)
           \<and> (\<forall>key. key \<noteq> js ''createdAt'' \<longrightarrow>
                 map_of ob key = map_option Json (map_of (own_properties t) key))"
proof -
  from assms obtain c d where c: "get_createdAt t = Inr c" and d: "new_Date impl c = Inr d"
    and ob: "ob = set_property (map (\<lambda>(k, v). (k, Json v)) (own_properties t))
                    (js ''createdAt'') (DateObject d)"
    by (auto simp: rehydrate_def split: sum.splits)
  have "map_of ob (js ''createdAt'') = Some (DateObject d)"
    by (simp add: ob map_of_set_property)
  moreover have "map_of ob key = map_option Json (map_of (own_properties t) key)"
    if "key \<noteq> js ''createdAt''" for key
    using that by (simp add: ob map_of_set_property map_of_map)
  ultimately show ?thesis
    using c d by blast
qed

lemma map_throwing_Inl:
  "\<exists>t\<in>set ts. \<exists>e. f t = Inl e \<Longrightarrow> \<forall>t e. f t = Inl e \<longrightarrow> e = TypeError \<Longrightarrow>
   map_throwing f ts = Inl TypeError"
proof (induction ts)
  case Nil
  then show ?case by simp
next
  case (Cons t ts)
  show ?case
  proof (cases "f t")
    case (Inl e)
    with Cons.prems(2) have "e = TypeError" by blast
    with Inl show ?thesis by simp
  next
    case (Inr ob)
    with Cons.prems(1) have "\<exists>t\<in>set ts. \<exists>e. f t = Inl e" by auto
    then have "map_throwing f ts = Inl TypeError"
      using Cons.IH Cons.prems(2) by blast
    with Inr show ?thesis by simp
  qed
qed

lemma map_throwing_Inr:
  "\<forall>t\<in>set ts. \<forall>e. f t \<noteq> Inl e \<Longrightarrow>
   \<exists>obs. map_throwing f ts = Inr obs \<and> length obs = length ts
         \<and> (\<forall>k<length ts. f (ts ! k) = Inr (obs ! k))"
proof (induction ts)
  case Nil
  then show ?case by simp
next
  case (Cons t ts)
  then obtain obs where obs: "map_throwing f ts = Inr obs" "length obs = length ts"
    "\<forall>k<length ts. f (ts ! k) = Inr (obs ! k)"
    by auto
  from Cons.prems obtain ob where ob: "f t = Inr ob"
    by (cases "f t") auto
  have "\<forall>k<length (t # ts). f ((t # ts) ! k) = Inr ((ob # obs) ! k)"
    using ob obs(3) by (auto simp: nth_Cons split: nat.splits)
  with ob obs(1,2) show ?case by simp
qed

text \<open>
  Claim C4 as stated fails. The stored text \<open>[1]\<close> parses, and is no array of
  target records; loading it issues no toast and leaves a collection of one object
  whose only property is an invalid \<open>createdAt\<close>. The same holds for \<open>[{"id":7}]\<close>.
  And the empty string, which is no JSON text, is skipped without a toast.
\<close>

theorem C4_unvalidated_load_counterexample:
  "load (\<lambda>v. None) \<lparr>dailyTargets = Some (Json_text (JArr [JNum (Dyadic 1 0)])),
                      quota_exceeded = False\<rparr>
     = \<lparr>loaded = [[(js ''createdAt'', DateObject None)]], load_toasts = [], load_console = []\<rparr>
   \<and> load (\<lambda>v. None)
         \<lparr>dailyTargets = Some (Json_text (JArr [JObj [(js ''id'', JNum (Dyadic 7 0))]])),
          quota_exceeded = False\<rparr>
     = \<lparr>loaded = [[(js ''id'', Json (JNum (Dyadic 7 0))), (js ''createdAt'', DateObject None)]],
        load_toasts = [], load_console = []\<rparr>
   \<and> load (\<lambda>v. None) \<lparr>dailyTargets = Some Empty_text, quota_exceeded = False\<rparr>
     = \<lparr>loaded = [], load_toasts = [], load_console = []\<rparr>"
  by (simp add: load_def getItem_def JSON_parse_def map_parsed_def rehydrate_def
      get_createdAt_def own_properties_def new_Date_def property_names_differ)

text \<open>
  Claim C4, amended. When the stored text is not empty and is not JSON, or is the JSON
  text of a value that is not an array, or of an array with an element on which the
  callback throws, loading ends in the \<open>catch\<close> block: the collection stays empty and
  exactly one toast, "Could not load your saved targets." of the destructive variant,
  is issued. The callback throws on \<open>null\<close> and on an object whose \<open>createdAt\<close>
  cannot be turned into a primitive. The empty string is skipped: empty collection, no
  toast. An array with no such element is loaded without any check of the shape of its
  elements and without a toast: one object for each element, in order, whose
  \<open>createdAt\<close> is the \<open>Date\<close> that \<open>new Date\<close> makes of the \<open>createdAt\<close> of
  the element (of \<open>undefined\<close> when it has none), and whose other properties are the
  own properties of the element.
\<close>

theorem C4_load_malformed:
  "(getItem sto = Some Unparsable_text \<longrightarrow> load impl sto = load_failed)
   \<and> (\<forall>v. getItem sto = Some (Json_text v) \<and> (\<forall>ts. v \<noteq> JArr ts) \<longrightarrow>
          load impl sto = load_failed)
   \<and> (\<forall>ts. getItem sto = Some (Json_text (JArr ts))
          \<and> (JNull \<in> set ts
             \<or> (\<exists>ps c. JObj ps \<in> set ts \<and> map_of ps (js ''createdAt'') = Some c
                        \<and> ToPrimitive_throws c)) \<longrightarrow>
          load impl sto = load_failed)
   \<and> (getItem sto = Some Empty_text \<longrightarrow>
          load impl sto = \<lparr>loaded = [], load_toasts = [], load_console = []\<rparr>)
   \<and> (\<forall>ts. getItem sto = Some (Json_text (JArr ts))
          \<and> JNull \<notin> set ts
          \<and> (\<forall>ps c. JObj ps \<in> set ts \<and> map_of ps (js ''createdAt'') = Some c \<longrightarrow>
                 \<not> ToPrimitive_throws c) \<longrightarrow>
          length (loaded (load impl sto)) = length ts
          \<and> load_toasts (load impl sto) = []
          \<and> (\<forall>k<length ts. \<exists>c d.
                 get_createdAt (ts ! k) = Inr c \<and> new_Date impl c = Inr d
                 \<and> map_of (loaded (load impl sto) ! k) (js ''createdAt'') = Some (DateObject d)
                 \<and> (\<forall>key. key \<noteq> js ''createdAt'' \<longrightarrow>
                       map_of (loaded (load impl sto) ! k) key
                       = map_option Json (map_of (own_properties (ts ! k)) key))))
   \<and> loaded load_failed = []
   \<and> load_toasts load_failed =
        [\<lparr>title = js ''Error'', description = js ''Could not load your saved targets.'',
          variant = Some destructive\<rparr>]"
proof -
  have a: "load impl sto = load_failed" if "getItem sto = Some Unparsable_text"
    using that by (simp add: load_def JSON_parse_def)
  have b: "load impl sto = load_failed"
    if "getItem sto = Some (Json_text v)" "\<forall>ts. v \<noteq> JArr ts" for v
    using that by (cases v) (simp_all add: load_def JSON_parse_def map_parsed_def)
  have c: "load impl sto = load_failed"
    if g: "getItem sto = Some (Json_text (JArr ts))"
      and n: "JNull \<in> set ts
              \<or> (\<exists>ps c. JObj ps \<in> set ts \<and> map_of ps (js ''createdAt'') = Some c
                         \<and> ToPrimitive_throws c)" for ts
  proof -
    from n have "\<exists>t\<in>set ts. \<exists>e. rehydrate impl t = Inl e"
      by (auto simp: rehydrate_eq_Inl)
    moreover have "\<forall>t e. rehydrate impl t = Inl e \<longrightarrow> e = TypeError"
      by (simp add: rehydrate_eq_Inl)
    ultimately have "map_throwing (rehydrate impl) ts = Inl TypeError"
      by (rule map_throwing_Inl)
    then show ?thesis
      using g by (simp add: load_def JSON_parse_def map_parsed_def)
  qed
  have d: "load impl sto = \<lparr>loaded = [], load_toasts = [], load_console = []\<rparr>"
    if "getItem sto = Some Empty_text"
    using that by (simp add: load_def)
  have e: "length (loaded (load impl sto)) = length ts
          \<and> load_toasts (load impl sto) = []
          \<and> (\<forall>k<length ts. \<exists>c d.
                 get_createdAt (ts ! k) = Inr c \<and> new_Date impl c = Inr d
                 \<and> map_of (loaded (load impl sto) ! k) (js ''createdAt'') = Some (DateObject d)
                 \<and> (\<forall>key. key \<noteq> js ''createdAt'' \<longrightarrow>
                       map_of (loaded (load impl sto) ! k) key
                       = map_option Json (map_of (own_properties (ts ! k)) key)))"
    if g: "getItem sto = Some (Json_text (JArr ts))" and n: "JNull \<notin> set ts"
      and p: "\<forall>ps c. JObj ps \<in> set ts \<and> map_of ps (js ''createdAt'') = Some c \<longrightarrow>
                 \<not> ToPrimitive_throws c" for ts
  proof -
    have "\<forall>t\<in>set ts. \<forall>e. rehydrate impl t \<noteq> Inl e"
      using n p by (auto simp: rehydrate_eq_Inl)
    then obtain obs where obs: "map_throwing (rehydrate impl) ts = Inr obs"
      "length obs = length ts" "\<forall>k<length ts. rehydrate impl (ts ! k) = Inr (obs ! k)"
      using map_throwing_Inr [of ts "rehydrate impl"] by blast
    have l: "load impl sto = \<lparr>loaded = obs, load_toasts = [], load_console = []\<rparr>"
      using g obs(1) by (simp add: load_def JSON_parse_def map_parsed_def)
    show ?thesis
      using obs(2,3) rehydrate_eq_Inr [of impl] by (simp add: l)
  qed
  show ?thesis
    using a b c d e by (simp add: load_failed_def)
qed

theorem C4_load_malformed_witness:
  "load (\<lambda>v. None) \<lparr>dailyTargets = Some Unparsable_text, quota_exceeded = False\<rparr> = load_failed
   \<and> load (\<lambda>v. None) \<lparr>dailyTargets = Some (Json_text (JObj [])), quota_exceeded = False\<rparr>
       = load_failed
   \<and> load (\<lambda>v. None) \<lparr>dailyTargets = Some (Json_text (JArr [JNull])), quota_exceeded = False\<rparr>
       = load_failed
   \<and> load (\<lambda>v. None)
        \<lparr>dailyTargets = Some (Json_text
           (JArr [JObj [(js ''createdAt'', JObj [(js ''toString'', JNum (Dyadic 0 0))])]])),
         quota_exceeded = False\<rparr>
       = load_failed
   \<and> load_toasts (load (\<lambda>v. None)
         \<lparr>dailyTargets = Some (Json_text (JArr [JBool True])), quota_exceeded = False\<rparr>) = []
   \<and> length (loaded (load (\<lambda>v. None)
         \<lparr>dailyTargets = Some (Json_text (JArr [JBool True])), quota_exceeded = False\<rparr>)) = 1
   \<and> map_of (loaded (load (\<lambda>v. None)
         \<lparr>dailyTargets = Some (Json_text (JArr [JBool True])), quota_exceeded = False\<rparr>) ! 0)
       (js ''createdAt'') = Some (DateObject None)
   \<and> load (\<lambda>v. None) \<lparr>dailyTargets = Some Empty_text, quota_exceeded = False\<rparr>
       = \<lparr>loaded = [], load_toasts = [], load_console = []\<rparr>
   \<and> length (load_toasts load_failed) = 1"
proof -
  note em = C4_load_malformed
    [of "\<lparr>dailyTargets = Some Empty_text, quota_exceeded = False\<rparr>" "\<lambda>v. None"]
  note u = C4_load_malformed
    [of "\<lparr>dailyTargets = Some Unparsable_text, quota_exceeded = False\<rparr>" "\<lambda>v. None"]
  note ob = C4_load_malformed
    [of "\<lparr>dailyTargets = Some (Json_text (JObj [])), quota_exceeded = False\<rparr>" "\<lambda>v. None"]
  note nu = C4_load_malformed
    [of "\<lparr>dailyTargets = Some (Json_text (JArr [JNull])), quota_exceeded = False\<rparr>" "\<lambda>v. None"]
  note ts = C4_load_malformed
    [of "\<lparr>dailyTargets = Some (Json_text
           (JArr [JObj [(js ''createdAt'', JObj [(js ''toString'', JNum (Dyadic 0 0))])]])),
         quota_exceeded = False\<rparr>" "\<lambda>v. None"]
  note tr = C4_load_malformed
    [of "\<lparr>dailyTargets = Some (Json_text (JArr [JBool True])), quota_exceeded = False\<rparr>"
      "\<lambda>v. None"]
  have 1: "load (\<lambda>v. None) \<lparr>dailyTargets = Some Unparsable_text, quota_exceeded = False\<rparr>
           = load_failed"
    using u by (simp add: getItem_def)
  have 2: "load (\<lambda>v. None) \<lparr>dailyTargets = Some (Json_text (JObj [])), quota_exceeded = False\<rparr>
           = load_failed"
    using ob by (simp add: getItem_def)
  have 3: "load (\<lambda>v. None) \<lparr>dailyTargets = Some (Json_text (JArr [JNull])), quota_exceeded = False\<rparr>
           = load_failed"
    using nu by (simp add: getItem_def)
  have 4: "length (loaded (load (\<lambda>v. None)
         \<lparr>dailyTargets = Some (Json_text (JArr [JBool True])), quota_exceeded = False\<rparr>)) = 1
     \<and> load_toasts (load (\<lambda>v. None)
         \<lparr>dailyTargets = Some (Json_text (JArr [JBool True])), quota_exceeded = False\<rparr>) = []
     \<and> map_of (loaded (load (\<lambda>v. None)
         \<lparr>dailyTargets = Some (Json_text (JArr [JBool True])), quota_exceeded = False\<rparr>) ! 0)
       (js ''createdAt'') = Some (DateObject None)"
    using tr by (simp add: getItem_def get_createdAt_def new_Date_def)
  have 5: "length (load_toasts load_failed) = 1"
    using u by simp
  have 6: "load (\<lambda>v. None) \<lparr>dailyTargets = Some Empty_text, quota_exceeded = False\<rparr>
           = \<lparr>loaded = [], load_toasts = [], load_console = []\<rparr>"
    using em by (simp add: getItem_def)
  have 7: "load (\<lambda>v. None)
        \<lparr>dailyTargets = Some (Json_text
           (JArr [JObj [(js ''createdAt'', JObj [(js ''toString'', JNum (Dyadic 0 0))])]])),
         quota_exceeded = False\<rparr>
       = load_failed"
    using ts by (simp add: getItem_def)
  show ?thesis
    using 1 2 3 4 5 6 7 by simp
qed
section \<open>Properties of the install prompt\<close>

lemma install_step_show_handle:
  "(showPrompt (fst s) \<longrightarrow> installPrompt (fst s) \<noteq> None) \<Longrightarrow>
   showPrompt (fst (install_step s ev)) \<longrightarrow> installPrompt (fst (install_step s ev)) \<noteq> None"
proof (cases s)
  case (Pair st k)
  assume "showPrompt (fst s) \<longrightarrow> installPrompt (fst s) \<noteq> None"
  with Pair show ?thesis
    by (cases ev; cases k)
       (auto simp: handleBeforeInstallPrompt_def handleInstall_begin_def
          handleInstall_resume_def handleDismiss_def
          split: option.splits platform_answer.splits)
qed

lemma foldl_install_step_show_handle:
  "(showPrompt (fst s) \<longrightarrow> installPrompt (fst s) \<noteq> None) \<Longrightarrow>
   showPrompt (fst (foldl install_step s evs))
   \<longrightarrow> installPrompt (fst (foldl install_step s evs)) \<noteq> None"
proof (induction evs arbitrary: s)
  case Nil
  then show ?case by simp
next
  case (Cons ev evs)
  have "showPrompt (fst (install_step s ev)) \<longrightarrow> installPrompt (fst (install_step s ev)) \<noteq> None"
    using Cons.prems by (rule install_step_show_handle)
  then show ?case using Cons.IH by simp
qed

text \<open>
  Claim C9. When Install is clicked while a handle is retained and the platform's choice
  resolves, the outcome \<open>accepted\<close> clears the handle and hides the banner, and the
  outcome \<open>dismissed\<close> leaves the handle and the show flag as they were, so a banner
  that was rendered stays rendered. The same holds for the part of the handler that
  runs after the wait, on whatever state \<open>st'\<close> the component is in by then:
  \<open>dismissed\<close> changes nothing, \<open>accepted\<close> clears the handle and the show flag.
\<close>

theorem C9_only_accepted_clears:
  "installPrompt st = Some e \<Longrightarrow>
     installPrompt (handleInstall (userChoice accepted) st) = None
   \<and> showPrompt (handleInstall (userChoice accepted) st) = False
   \<and> \<not> banner_rendered (handleInstall (userChoice accepted) st)
   \<and> installPrompt (handleInstall (userChoice dismissed) st) = Some e
   \<and> showPrompt (handleInstall (userChoice dismissed) st) = showPrompt st
   \<and> banner_rendered (handleInstall (userChoice dismissed) st) = banner_rendered st
   \<and> handleInstall_resume (userChoice dismissed) st' = st'
   \<and> installPrompt (handleInstall_resume (userChoice accepted) st') = None
   \<and> showPrompt (handleInstall_resume (userChoice accepted) st') = False"
  by (simp add: handleInstall_def handleInstall_begin_def handleInstall_resume_def
      banner_rendered_def)

theorem C9_only_accepted_clears_witness:
  "installPrompt (handleBeforeInstallPrompt (7::nat) InstallPrompt_init) = Some 7
   \<and> banner_rendered (handleBeforeInstallPrompt (7::nat) InstallPrompt_init)
   \<and> \<not> banner_rendered
         (handleInstall (userChoice accepted) (handleBeforeInstallPrompt (7::nat) InstallPrompt_init))
   \<and> installPrompt
         (handleInstall (userChoice accepted) (handleBeforeInstallPrompt (7::nat) InstallPrompt_init))
       = None
   \<and> banner_rendered
         (handleInstall (userChoice dismissed) (handleBeforeInstallPrompt (7::nat) InstallPrompt_init))
   \<and> installPrompt
         (handleInstall (userChoice dismissed) (handleBeforeInstallPrompt (7::nat) InstallPrompt_init))
       = Some 7"
proof -
  have h: "installPrompt (handleBeforeInstallPrompt (7::nat) InstallPrompt_init) = Some 7"
    by (simp add: handleBeforeInstallPrompt_def)
  have b: "banner_rendered (handleBeforeInstallPrompt (7::nat) InstallPrompt_init)"
    by (simp add: handleBeforeInstallPrompt_def banner_rendered_def)
  show ?thesis
    using C9_only_accepted_clears [OF h, where st' = InstallPrompt_init] h b by blast
qed

text \<open>
  Claim C10. In every state reached from the initial one by the component's events, the
  banner is rendered only if the show flag is set and a handle is retained; a set show
  flag alone already implies a retained handle there. A click on Install with no handle
  retained changes nothing and does not call the platform's \<open>prompt()\<close>: the handler
  returns at once.
\<close>

theorem C10_banner_needs_handle:
  "(banner_rendered (install_run evs) \<longrightarrow>
       showPrompt (install_run evs) \<and> installPrompt (install_run evs) \<noteq> None)
   \<and> (showPrompt (install_run evs) \<longrightarrow> installPrompt (install_run evs) \<noteq> None)
   \<and> (installPrompt (install_run evs) = None \<longrightarrow>
       handleInstall_begin (install_run evs) = None
       \<and> handleInstall answer (install_run evs) = install_run evs
       \<and> prompt_calls (handleInstall answer (install_run evs)) = prompt_calls (install_run evs))"
proof -
  have "showPrompt (install_run evs) \<longrightarrow> installPrompt (install_run evs) \<noteq> None"
    unfolding install_run_def
    by (rule foldl_install_step_show_handle) (simp add: InstallPrompt_init_def)
  then show ?thesis
    by (simp add: banner_rendered_def handleInstall_def handleInstall_begin_def)
qed

theorem C10_banner_needs_handle_witness:
  "banner_rendered (install_run [BeforeInstallPrompt (7::nat)])
   \<and> installPrompt (install_run [BeforeInstallPrompt (7::nat)]) \<noteq> None
   \<and> installPrompt
        (install_run [BeforeInstallPrompt (7::nat), ClickInstall, PlatformAnswer (userChoice accepted)])
       = None
   \<and> handleInstall (userChoice accepted)
        (install_run [BeforeInstallPrompt (7::nat), ClickInstall, PlatformAnswer (userChoice accepted)])
       = install_run [BeforeInstallPrompt (7::nat), ClickInstall, PlatformAnswer (userChoice accepted)]"
proof -
  have b: "banner_rendered (install_run [BeforeInstallPrompt (7::nat)])"
    by (simp add: install_run_def InstallPrompt_init_def handleBeforeInstallPrompt_def
        banner_rendered_def)
  have n: "installPrompt
        (install_run [BeforeInstallPrompt (7::nat), ClickInstall, PlatformAnswer (userChoice accepted)])
       = None"
    by (simp add: install_run_def InstallPrompt_init_def handleBeforeInstallPrompt_def
        handleInstall_begin_def handleInstall_resume_def)
  have "installPrompt (install_run [BeforeInstallPrompt (7::nat)]) \<noteq> None"
    using C10_banner_needs_handle [of "[BeforeInstallPrompt (7::nat)]" "userChoice accepted"] b
    by blast
  moreover have "handleInstall (userChoice accepted)
        (install_run [BeforeInstallPrompt (7::nat), ClickInstall, PlatformAnswer (userChoice accepted)])
       = install_run [BeforeInstallPrompt (7::nat), ClickInstall, PlatformAnswer (userChoice accepted)]"
    using C10_banner_needs_handle
        [of "[BeforeInstallPrompt (7::nat), ClickInstall, PlatformAnswer (userChoice accepted)]"
          "userChoice accepted"] n
    by blast
  ultimately show ?thesis
    using b n by blast
qed

end
